theory Spec2Isabelle
  imports Main "HOL-Library.Sublist" "HOL-Library.AList"
begin

section \<open>JavaScript strings\<close>

text \<open>
  The plugin is one TypeScript module. Its strings are modelled as \<open>string\<close>
  (lists of characters). The only text outside ASCII that the module looks at is the
  frame delimiter of the transformer's diagnostics; it is written as its UTF-8 bytes.
  Searching a well-formed text for a well-formed text finds the same occurrences in
  UTF-8 bytes as in UTF-16 code units, and every position is only used to cut the
  message at the delimiter.
\<close>

text \<open>\<open>s.startsWith(t)\<close>.\<close>

fun startsWith :: "string \<Rightarrow> string \<Rightarrow> bool" where
  "startsWith s [] = True"
| "startsWith [] (p # ps) = False"
| "startsWith (c # cs) (p # ps) = (c = p \<and> startsWith cs ps)"

text \<open>\<open>s.endsWith(t)\<close>.\<close>

definition endsWith :: "string \<Rightarrow> string \<Rightarrow> bool" where
  "endsWith s t = startsWith (rev s) (rev t)"

text \<open>\<open>s.includes(t)\<close>: \<open>t\<close> occurs in \<open>s\<close> as a contiguous piece.\<close>

fun str_includes :: "string \<Rightarrow> string \<Rightarrow> bool" where
  "str_includes [] t = (t = [])"
| "str_includes (c # cs) t = (startsWith (c # cs) t \<or> str_includes cs t)"

text \<open>
  \<open>s.indexOf(t)\<close>: the position of the first occurrence, \<open>-1\<close> when there is none.
\<close>

fun indexOf_from :: "nat \<Rightarrow> string \<Rightarrow> string \<Rightarrow> int" where
  "indexOf_from n [] t = (if t = [] then int n else - 1)"
| "indexOf_from n (c # cs) t =
     (if startsWith (c # cs) t then int n else indexOf_from (Suc n) cs t)"

definition indexOf :: "string \<Rightarrow> string \<Rightarrow> int" where
  "indexOf s t = indexOf_from 0 s t"

text \<open>\<open>s.slice(i)\<close>: from position \<open>i\<close> on; a negative \<open>i\<close> counts from the end.\<close>

definition slice :: "string \<Rightarrow> int \<Rightarrow> string" where
  "slice s i = (if i < 0 then drop (length s - nat (- i)) s else drop (nat i) s)"

section \<open>The file identity key\<close>

text \<open>
  Lines 107 to 110 of the module:
  \<^verbatim>\<open>const ssr = transformOptions?.ssr;\<close>
  \<^verbatim>\<open>const fileCachePath = `${relative(root, id).replace(/\//g, "|")}${ssr ? "-srr" : ""}.json`;\<close>
  \<open>replace_slashes\<close> is \<open>.replace(/\//g, "|")\<close>: every slash becomes a bar.
  \<open>fileCachePath\<close> takes the project-relative path (the value of
  \<open>relative(root, id)\<close>) and whether \<open>ssr\<close> is truthy.
\<close>

definition replace_slashes :: "string \<Rightarrow> string" where
  "replace_slashes s = map (\<lambda>c. if c = CHR ''/'' then CHR ''|'' else c) s"

definition fileCachePath :: "string \<Rightarrow> bool \<Rightarrow> string" where
  "fileCachePath rel ssr = replace_slashes rel @ (if ssr then ''-srr'' else '''') @ ''.json''"

section \<open>Reading a position out of a diagnostic\<close>

text \<open>
  Lines 139 to 146: the message is cut at the first \<^verbatim>\<open>indexOf\<close> of the
  frame delimiter (a box-drawing corner, a box-drawing dash and an opening bracket),
  and the regular expression \<^verbatim>\<open>/:(\d+):(\d+)]/\<close> is matched against the rest.
  \<open>frame_delimiter\<close> is the delimiter in UTF-8.
\<close>

definition frame_delimiter :: string where
  "frame_delimiter = [CHR 0xE2, CHR 0x95, CHR 0xAD, CHR 0xE2, CHR 0x94, CHR 0x80, CHR ''['']"

text \<open>\<^verbatim>\<open>\d\<close> without the unicode flag: the ten ASCII digits.\<close>

definition digit :: "char \<Rightarrow> bool" where
  "digit c = (c \<in> set ''0123456789'')"

text \<open>
  \<^verbatim>\<open>(\d+)\<close> followed by the character \<open>c\<close>, at the start of \<open>s\<close>: the digits
  read and the text after \<open>c\<close>. The group is greedy, and giving a digit back never
  helps, since the character after a shorter group is a digit and \<open>c\<close> is not one.
\<close>

definition digits_then :: "char \<Rightarrow> string \<Rightarrow> (string \<times> string) option" where
  "digits_then c s =
     (let d = takeWhile digit s; r = dropWhile digit s in
      if d = [] then None
      else (case r of [] \<Rightarrow> None | x # r' \<Rightarrow> if x = c then Some (d, r') else None))"

text \<open>The whole expression, matched at the start of \<open>s\<close>: the two groups.\<close>

definition match_here :: "string \<Rightarrow> (string \<times> string) option" where
  "match_here s =
     (case s of
        [] \<Rightarrow> None
      | x # r1 \<Rightarrow>
          if x \<noteq> CHR '':'' then None
          else (case digits_then CHR '':'' r1 of
                  None \<Rightarrow> None
                | Some (d1, r2) \<Rightarrow>
                    (case digits_then CHR '']'' r2 of
                       None \<Rightarrow> None
                     | Some (d2, r3) \<Rightarrow> Some (d1, d2))))"

text \<open>
  \<^verbatim>\<open>s.match(/:(\d+):(\d+)]/)\<close>: the leftmost match, \<open>None\<close> for \<^verbatim>\<open>null\<close>.
\<close>

fun regex_match :: "string \<Rightarrow> (string \<times> string) option" where
  "regex_match [] = None"
| "regex_match (c # cs) =
     (case match_here (c # cs) of Some m \<Rightarrow> Some m | None \<Rightarrow> regex_match cs)"

section \<open>The data of the module\<close>

text \<open>
  \<^verbatim>\<open>SourceMapPayload\<close> (from Node's \<^verbatim>\<open>module\<close>), \<^verbatim>\<open>CacheEntry\<close>
  (lines 36 to 40), the parser configuration chosen at lines 98 to 104, and the
  options handed to the transformer at lines 118 to 136.
\<close>

record SourceMapPayload =
  sm_file :: string
  sm_version :: int
  sm_sources :: "string list"
  sm_sourcesContent :: "string list"
  sm_names :: "string list"
  mappings :: string
  sm_sourceRoot :: string

record CacheEntry =
  entry_input :: string
  entry_code :: string
  entry_map :: SourceMapPayload

datatype ParserConfig = Typescript (tsx: bool) | Ecmascript (jsx: bool)

record swc_options =
  opt_filename :: string
  opt_swcrc :: bool
  opt_configFile :: bool
  opt_sourceMaps :: bool
  opt_target :: string
  opt_parser :: ParserConfig
  opt_useDefineForClassFields :: bool
  opt_refresh :: bool
  opt_development :: bool
  opt_useBuiltins :: bool
  opt_runtime :: string

text \<open>The transformer's \<^verbatim>\<open>Output\<close>: the code, and the map as JSON text when there is one.\<close>

record Output =
  out_code :: string
  out_map :: "string option"

text \<open>The second argument of the transform hook: \<^verbatim>\<open>{ ssr?: boolean }\<close>, or nothing.\<close>

record TransformOptions =
  ssr :: "bool option"

text \<open>What the transform hook returns when it does not skip the file.\<close>

record TransformResult =
  res_code :: string
  res_map :: SourceMapPayload

text \<open>The two fields of the resolved configuration that the module reads.\<close>

record ResolvedConfig =
  cfg_root :: string
  cfg_cacheDir :: string

text \<open>
  A parsed JSON value, as far as the version check of line 69 can tell values apart
  (a number is kept as an integer; the check never looks inside one).
\<close>

datatype json =
  JNull | JBool bool | JNumber int | JString string | JArray "json list"
| JObject "(string \<times> json) list"

datatype fs_error = ENOENT | EEXIST | EISDIR | ENOTDIR

text \<open>
  What a hook throws: the transformer's error (its message, and the line and column
  that lines 143 and 144 attach, both texts), a \<^verbatim>\<open>TypeError\<close>, a
  \<^verbatim>\<open>SyntaxError\<close> of \<^verbatim>\<open>JSON.parse\<close>, or an error of the file system.
\<close>

datatype error =
  CompileError (message: string) (line: "string option") (column: "string option")
| TypeError
| SyntaxError
| FsError fs_error

section \<open>What the module imports\<close>

text \<open>
  The functions the module calls and does not define are parameters:
  \<^item> \<open>swc_transform\<close> is \<^verbatim>\<open>transform\<close> of \<^verbatim>\<open>@swc/core\<close>: the source and the
    options to an \<^verbatim>\<open>Output\<close>, or \<open>Inl\<close> the message of the error it throws;
  \<^item> \<open>swcVersion\<close> is \<^verbatim>\<open>version\<close> of \<^verbatim>\<open>@swc/core\<close>;
  \<^item> \<open>path_relative\<close> is \<^verbatim>\<open>relative\<close> of \<^verbatim>\<open>path\<close>;
  \<^item> \<open>JSON_parse\<close> is \<^verbatim>\<open>JSON.parse\<close> where the module inspects the value it
    gives (line 68), \<open>None\<close> when it throws;
  \<^item> \<open>parse_entry\<close> and \<open>parse_map\<close> are \<^verbatim>\<open>JSON.parse\<close> at the types the
    module declares for its result (\<^verbatim>\<open>CacheEntry\<close> at line 79,
    \<^verbatim>\<open>SourceMapPayload\<close> at line 150), \<open>None\<close> when it throws; a text that
    parses to a value of another shape is outside these types;
  \<^item> \<open>stringify_entry\<close> and \<open>stringify_metadata\<close> are \<^verbatim>\<open>JSON.stringify\<close> at
    lines 183 and 93, the second applied to \<^verbatim>\<open>{ version }\<close>.
\<close>

record env =
  swc_transform :: "string \<Rightarrow> swc_options \<Rightarrow> string + Output"
  swcVersion :: string
  path_relative :: "string \<Rightarrow> string \<Rightarrow> string"
  JSON_parse :: "string \<Rightarrow> json option"
  parse_entry :: "string \<Rightarrow> CacheEntry option"
  parse_map :: "string \<Rightarrow> SourceMapPayload option"
  stringify_entry :: "CacheEntry \<Rightarrow> string"
  stringify_metadata :: "string \<Rightarrow> string"

section \<open>The state of the module and of the disk\<close>

text \<open>
  The module-level variables \<^verbatim>\<open>cache\<close> (a \<^verbatim>\<open>Map\<close>, in insertion order),
  \<^verbatim>\<open>root\<close> and \<^verbatim>\<open>cachePath\<close> (both \<^verbatim>\<open>undefined\<close> until the configuration
  is resolved), and what the module can observe or change outside itself:
  \<^item> \<open>files\<close>: the regular files of the disk, path to content;
  \<^item> \<open>dirs\<close>: its directories;
  \<^item> \<open>writes_issued\<close>: the writes started with \<^verbatim>\<open>promises.writeFile\<close> at line 181
    and never awaited, path and content, oldest first;
  \<^item> \<open>swc_calls\<close>: the calls made to the transformer, oldest first.
\<close>

record state =
  cache :: "(string \<times> CacheEntry) list"
  root :: "string option"
  cachePath :: "string option"
  files :: "(string \<times> string) list"
  dirs :: "string list"
  writes_issued :: "(string \<times> string) list"
  swc_calls :: "(string \<times> swc_options) list"

section \<open>The file system\<close>

text \<open>
  The calls of Node's \<^verbatim>\<open>fs\<close> that the module makes, on the disk of the state.
  A path is a text with \<open>/\<close> between its segments. \<open>join\<close> is
  \<^verbatim>\<open>path.join\<close> of a directory and one file name: the module calls it on the
  configured cache directory and on the literals \<^verbatim>\<open>swc-cache\<close> and
  \<^verbatim>\<open>_metadata.json\<close>; the directory is taken as the resolved configuration
  gives it, with no \<open>.\<close> or \<open>..\<close> segment to normalise. A call fails for the
  reasons that the paths give (a path that is missing, in use, or of the other
  kind); faults of the device and of permissions are not part of the disk here.
\<close>

definition join :: "string \<Rightarrow> string \<Rightarrow> string" where
  "join a b = (if a = [] then b else if last a = CHR ''/'' then a @ b else a @ ''/'' @ b)"

text \<open>The path of the directory that holds \<open>p\<close>: what stands before the last slash.\<close>

definition dirname :: "string \<Rightarrow> string" where
  "dirname p = rev (drop 1 (dropWhile (\<lambda>c. c \<noteq> CHR ''/'') (rev p)))"

text \<open>
  A path whose \<open>dirname\<close> is empty lies in the root or in the working directory,
  which exist.
\<close>

definition parent_exists :: "state \<Rightarrow> string \<Rightarrow> bool" where
  "parent_exists st p = (dirname p = [] \<or> dirname p \<in> set (dirs st))"

definition is_file :: "state \<Rightarrow> string \<Rightarrow> bool" where
  "is_file st p = (p \<in> set (map fst (files st)))"

definition existsSync :: "state \<Rightarrow> string \<Rightarrow> bool" where
  "existsSync st p = (is_file st p \<or> p \<in> set (dirs st))"

text \<open>\<^verbatim>\<open>readFileSync(p, "utf-8")\<close>, and \<^verbatim>\<open>promises.readFile\<close> once awaited.\<close>

definition readFileSync :: "state \<Rightarrow> string \<Rightarrow> fs_error + string" where
  "readFileSync st p =
     (case map_of (files st) p of
        Some content \<Rightarrow> Inr content
      | None \<Rightarrow> if p \<in> set (dirs st) then Inl EISDIR else Inl ENOENT)"

text \<open>
  The name of \<open>q\<close> inside the directory \<open>d\<close>, when \<open>q\<close> lies directly in it.
\<close>

definition child_name :: "string \<Rightarrow> string \<Rightarrow> string option" where
  "child_name d q =
     (let n = drop (length d + 1) q in
      if startsWith q (d @ ''/'') \<and> n \<noteq> [] \<and> CHR ''/'' \<notin> set n then Some n else None)"

text \<open>\<^verbatim>\<open>readdirSync(d)\<close>: the names of the files and directories directly in \<open>d\<close>.\<close>

definition readdirSync :: "state \<Rightarrow> string \<Rightarrow> fs_error + string list" where
  "readdirSync st d =
     (if d \<in> set (dirs st)
      then Inr (List.map_filter (child_name d) (map fst (files st) @ dirs st))
      else if is_file st d then Inl ENOTDIR else Inl ENOENT)"

text \<open>\<open>q\<close> is \<open>p\<close> or lies below it.\<close>

definition within :: "string \<Rightarrow> string \<Rightarrow> bool" where
  "within p q = (q = p \<or> startsWith q (p @ ''/''))"

text \<open>
  \<^verbatim>\<open>rmSync(p, { recursive: true, force: true })\<close>: \<open>p\<close> and all below it are gone;
  with \<^verbatim>\<open>force\<close> a path that does not exist is no error.
\<close>

definition rmSync :: "string \<Rightarrow> state \<Rightarrow> state" where
  "rmSync p st =
     st\<lparr>files := filter (\<lambda>(q, c). \<not> within p q) (files st),
        dirs := filter (\<lambda>q. \<not> within p q) (dirs st)\<rparr>"

text \<open>\<^verbatim>\<open>mkdirSync(p)\<close>: one new directory, in a directory that exists.\<close>

definition mkdirSync :: "string \<Rightarrow> state \<Rightarrow> fs_error + state" where
  "mkdirSync p st =
     (if existsSync st p then Inl EEXIST
      else if \<not> parent_exists st p then Inl ENOENT
      else Inr (st\<lparr>dirs := dirs st @ [p]\<rparr>))"

text \<open>
  The directories on the way to \<open>p\<close>, outermost first, \<open>p\<close> itself last: the
  beginnings of \<open>p\<close> that end before a slash.
\<close>

definition ancestors :: "string \<Rightarrow> string list" where
  "ancestors p = [take i p. i \<leftarrow> [1..<length p], p ! i = CHR ''/''] @ [p]"

text \<open>
  \<^verbatim>\<open>mkdirSync(p, { recursive: true })\<close>: every missing directory on the way is
  made; a directory that is already there is no error, a regular file in the way is.
\<close>

definition mkdirSync_recursive :: "string \<Rightarrow> state \<Rightarrow> fs_error + state" where
  "mkdirSync_recursive p st =
     (if is_file st p then Inl EEXIST
      else if list_ex (is_file st) (ancestors p) then Inl ENOTDIR
      else Inr (st\<lparr>dirs := dirs st @ filter (\<lambda>d. d \<notin> set (dirs st)) (ancestors p)\<rparr>))"

text \<open>\<^verbatim>\<open>writeFileSync(p, content)\<close>: the file is created or replaced.\<close>

definition writeFileSync :: "string \<Rightarrow> string \<Rightarrow> state \<Rightarrow> fs_error + state" where
  "writeFileSync p content st =
     (if p \<in> set (dirs st) then Inl EISDIR
      else if \<not> parent_exists st p then Inl ENOENT
      else Inr (st\<lparr>files := AList.update p content (files st)\<rparr>))"

section \<open>The hook \<open>configResolved\<close>\<close>

text \<open>Line 35, as the template of line 65 prints the number.\<close>

definition PLUGIN_CACHE_VERSION :: string where
  "PLUGIN_CACHE_VERSION = ''1''"

text \<open>Line 65: \<^verbatim>\<open>`${PLUGIN_CACHE_VERSION}-${swcVersion}`\<close>.\<close>

definition cache_version :: "env \<Rightarrow> string" where
  "cache_version e = PLUGIN_CACHE_VERSION @ ''-'' @ swcVersion e"

text \<open>
  \<^verbatim>\<open>previousCache.version\<close> (line 69): reading a property of \<^verbatim>\<open>null\<close> throws a
  \<^verbatim>\<open>TypeError\<close>; an object gives the property's value, or \<^verbatim>\<open>undefined\<close> (\<open>None\<close>)
  when it has none of that name; a boolean, a number, a text and an array have no
  property of that name and give \<^verbatim>\<open>undefined\<close>.
\<close>

fun get_version :: "json \<Rightarrow> error + json option" where
  "get_version JNull = Inl TypeError"
| "get_version (JObject kvs) = Inr (map_of kvs ''version'')"
| "get_version (JBool b) = Inr None"
| "get_version (JNumber n) = Inr None"
| "get_version (JString s) = Inr None"
| "get_version (JArray xs) = Inr None"

text \<open>Line 73: \<^verbatim>\<open>f.endsWith(".json") && f !== "_metadata.json"\<close>.\<close>

definition is_entry_file :: "string \<Rightarrow> bool" where
  "is_entry_file f = (endsWith f ''.json'' \<and> f \<noteq> ''_metadata.json'')"

text \<open>
  Lines 71 to 81: every entry file is read and parsed, and the value is set in the
  cache under the file's name. The reads run concurrently and \<^verbatim>\<open>Promise.all\<close>
  rejects as soon as one of them fails, while the others still run to their end: the
  entries that could be read are in the cache, and the hook throws. Which failure is
  thrown when several reads fail depends on their timing; here it is the one of the
  first failing file of the listing. The result is the error thrown, if any, and the
  state.
\<close>

fun restore :: "env \<Rightarrow> string \<Rightarrow> string list \<Rightarrow> state \<Rightarrow> error option \<times> state" where
  "restore e cp [] st = (None, st)"
| "restore e cp (f # fs) st =
     (case readFileSync st (cp @ ''/'' @ f) of
        Inl err \<Rightarrow> (Some (FsError err), snd (restore e cp fs st))
      | Inr text \<Rightarrow>
          (case parse_entry e text of
             None \<Rightarrow> (Some SyntaxError, snd (restore e cp fs st))
           | Some entry \<Rightarrow> restore e cp fs (st\<lparr>cache := AList.update f entry (cache st)\<rparr>)))"

text \<open>Lines 92 and 93: the fresh metadata record is written.\<close>

definition write_metadata :: "env \<Rightarrow> string \<Rightarrow> state \<Rightarrow> error option \<times> state" where
  "write_metadata e metadataPath st =
     (case writeFileSync metadataPath (stringify_metadata e (cache_version e)) st of
        Inl err \<Rightarrow> (Some (FsError err), st)
      | Inr st' \<Rightarrow> (None, st'))"

text \<open>
  Lines 60 to 94. The result is the error the hook throws (\<open>None\<close> when it returns)
  and the state it leaves. The log line of lines 82 to 84 is not part of the state.
\<close>

definition configResolved :: "env \<Rightarrow> ResolvedConfig \<Rightarrow> state \<Rightarrow> error option \<times> state" where
  "configResolved e config st =
     (if cache st \<noteq> [] then (None, st)
      else
        let cp = join (cfg_cacheDir config) ''swc-cache'';
            st1 = st\<lparr>root := Some (cfg_root config), cachePath := Some cp\<rparr>;
            metadataPath = join cp ''_metadata.json''
        in
        if existsSync st1 metadataPath then
          (case readFileSync st1 metadataPath of
             Inl err \<Rightarrow> (Some (FsError err), st1)
           | Inr content \<Rightarrow>
               (case JSON_parse e content of
                  None \<Rightarrow> (Some SyntaxError, st1)
                | Some previousCache \<Rightarrow>
                    (case get_version previousCache of
                       Inl err \<Rightarrow> (Some err, st1)
                     | Inr v \<Rightarrow>
                         if v = Some (JString (cache_version e)) then
                           (case readdirSync st1 cp of
                              Inl err \<Rightarrow> (Some (FsError err), st1)
                            | Inr names \<Rightarrow>
                                (case restore e cp (filter is_entry_file names) st1 of
                                   (Some err, st2) \<Rightarrow> (Some err, st2)
                                 | (None, st2) \<Rightarrow> write_metadata e metadataPath st2))
                         else
                           (case mkdirSync cp (rmSync cp st1) of
                              Inl err \<Rightarrow> (Some (FsError err), rmSync cp st1)
                            | Inr st2 \<Rightarrow> write_metadata e metadataPath st2))))
        else
          (case mkdirSync_recursive cp st1 of
             Inl err \<Rightarrow> (Some (FsError err), st1)
           | Inr st2 \<Rightarrow> write_metadata e metadataPath st2))"

section \<open>The hook \<open>transform\<close>\<close>

text \<open>Lines 98 to 104: the parser for the file, by the end of its id.\<close>

definition parser_for :: "string \<Rightarrow> ParserConfig option" where
  "parser_for ident =
     (if endsWith ident ''.tsx'' then Some (Typescript True)
      else if endsWith ident ''.ts'' then Some (Typescript False)
      else if endsWith ident ''.jsx'' then Some (Ecmascript True)
      else None)"

text \<open>Line 107: \<^verbatim>\<open>transformOptions?.ssr\<close>, and whether the value is truthy.\<close>

definition ssr_of :: "TransformOptions option \<Rightarrow> bool option" where
  "ssr_of topts = (case topts of None \<Rightarrow> None | Some t \<Rightarrow> ssr t)"

definition truthy :: "bool option \<Rightarrow> bool" where
  "truthy b = (b = Some True)"

text \<open>Lines 118 to 136: the options of the call to the transformer.\<close>

definition swc_options_for :: "string \<Rightarrow> ParserConfig \<Rightarrow> bool option \<Rightarrow> swc_options" where
  "swc_options_for ident parser s =
     \<lparr>opt_filename = ident, opt_swcrc = False, opt_configFile = False,
      opt_sourceMaps = True, opt_target = ''es2020'', opt_parser = parser,
      opt_useDefineForClassFields = True, opt_refresh = (\<not> truthy s),
      opt_development = True, opt_useBuiltins = True, opt_runtime = ''automatic''\<rparr>"

text \<open>
  Lines 137 to 148: the error that the hook throws when the transformer has thrown
  one with the message \<open>msg\<close>.
\<close>

definition catch_error :: "string \<Rightarrow> error" where
  "catch_error msg =
     (let fileStartIndex = indexOf msg frame_delimiter in
      if fileStartIndex \<noteq> - 1 then
        (case regex_match (slice msg fileStartIndex) of
           Some (l, c) \<Rightarrow> CompileError msg (Some l) (Some c)
         | None \<Rightarrow> CompileError msg None None)
      else CompileError msg None None)"

text \<open>Line 21, and the line feed that ends each line of a template.\<close>

definition runtimePublicPath :: string where
  "runtimePublicPath = ''/@react-refresh''"

definition LF :: string where
  "LF = [CHR 0x0A]"

text \<open>
  Lines 154 to 173: the template around the compiled code. \<open>refresh_head\<close> is the
  text before \<^verbatim>\<open>${result.code}\<close>, \<open>refresh_tail\<close> the text after it.
\<close>

definition refresh_head :: "string \<Rightarrow> string" where
  "refresh_head ident =
     ''import * as RefreshRuntime from \"'' @ runtimePublicPath @ ''\";'' @ LF @
     ''  '' @ LF @
     ''  if (!window.$RefreshReg$) throw new Error(\"React refresh preamble was not loaded. Something is wrong.\");'' @ LF @
     ''  const prevRefreshReg = window.$RefreshReg$;'' @ LF @
     ''  const prevRefreshSig = window.$RefreshSig$;'' @ LF @
     ''  window.$RefreshReg$ = RefreshRuntime.getRefreshReg(\"'' @ ident @ ''\");'' @ LF @
     ''  window.$RefreshSig$ = RefreshRuntime.createSignatureFunctionForTransform;'' @ LF @
     ''  '' @ LF @
     ''  ''"

definition refresh_tail :: string where
  "refresh_tail =
     LF @
     ''  '' @ LF @
     ''  window.$RefreshReg$ = prevRefreshReg;'' @ LF @
     ''  window.$RefreshSig$ = prevRefreshSig;'' @ LF @
     ''  import.meta.hot.accept((nextExports) => {'' @ LF @
     ''  if (!nextExports) return;'' @ LF @
     ''  import(/* @vite-ignore */ import.meta.url).then((current) => {'' @ LF @
     ''    const invalidateMessage = RefreshRuntime.validateRefreshBoundaryAndEnqueueUpdate(current, nextExports);'' @ LF @
     ''    if (invalidateMessage) import.meta.hot.invalidate(invalidateMessage);'' @ LF @
     ''  });'' @ LF @
     ''});'' @ LF @
     ''  ''"

text \<open>
  Lines 152 to 174: when the compiled code includes the marker, eight semicolons go
  before the mappings and the template goes around the code.
\<close>

definition inject_refresh :: "string \<Rightarrow> string \<Rightarrow> SourceMapPayload \<Rightarrow> string \<times> SourceMapPayload" where
  "inject_refresh ident compiled sourceMap =
     (if str_includes compiled ''$RefreshReg$''
      then (refresh_head ident @ compiled @ refresh_tail,
            sourceMap\<lparr>mappings := '';;;;;;;;'' @ mappings sourceMap\<rparr>)
      else (compiled, sourceMap))"

text \<open>A template prints \<^verbatim>\<open>undefined\<close> for a variable that was never assigned.\<close>

definition in_template :: "string option \<Rightarrow> string" where
  "in_template v = (case v of None \<Rightarrow> ''undefined'' | Some t \<Rightarrow> t)"

text \<open>
  Lines 95 to 187. \<open>src\<close> is the parameter \<^verbatim>\<open>code\<close>, \<open>ident\<close> the parameter
  \<^verbatim>\<open>id\<close>. The result is \<open>Inl\<close> the error thrown, \<open>Inr None\<close> when the hook returns
  nothing, \<open>Inr (Some r)\<close> when it returns \<open>r\<close>; and the state it leaves.
  \<^verbatim>\<open>relative\<close> throws a \<^verbatim>\<open>TypeError\<close> when \<^verbatim>\<open>root\<close> was never assigned;
  \<^verbatim>\<open>JSON.parse\<close> at line 150 throws a \<^verbatim>\<open>SyntaxError\<close> on a text that is no
  JSON, and on \<^verbatim>\<open>undefined\<close>. The cache is read at line 111 and set nowhere in the
  hook: the entry of line 176 goes to \<^verbatim>\<open>promises.writeFile\<close> only.
\<close>

definition transform ::
  "env \<Rightarrow> string \<Rightarrow> string \<Rightarrow> TransformOptions option \<Rightarrow> state
     \<Rightarrow> (error + TransformResult option) \<times> state" where
  "transform e src ident topts st =
     (if str_includes ident ''node_modules'' then (Inr None, st)
      else
        (case parser_for ident of
           None \<Rightarrow> (Inr None, st)
         | Some parser \<Rightarrow>
             (case root st of
                None \<Rightarrow> (Inl TypeError, st)
              | Some r \<Rightarrow>
                  let s = ssr_of topts;
                      key = fileCachePath (path_relative e r ident) (truthy s);
                      cachedEntry = map_of (cache st) key
                  in
                  if map_option entry_input cachedEntry = Some src then
                    (Inr (map_option
                       (\<lambda>c. \<lparr>res_code = entry_code c, res_map = entry_map c\<rparr>) cachedEntry), st)
                  else
                    let opts = swc_options_for ident parser s;
                        st1 = st\<lparr>swc_calls := swc_calls st @ [(src, opts)]\<rparr>
                    in
                    (case swc_transform e src opts of
                       Inl msg \<Rightarrow> (Inl (catch_error msg), st1)
                     | Inr result \<Rightarrow>
                         (case Option.bind (out_map result) (parse_map e) of
                            None \<Rightarrow> (Inl SyntaxError, st1)
                          | Some sourceMap \<Rightarrow>
                              let (code', map') = inject_refresh ident (out_code result) sourceMap;
                                  entry = \<lparr>entry_input = src, entry_code = code',
                                           entry_map = map'\<rparr>
                              in
                              (Inr (Some \<lparr>res_code = code', res_map = map'\<rparr>),
                               st1\<lparr>writes_issued := writes_issued st1 @
                                    [(in_template (cachePath st1) @ ''/'' @ key,
                                      stringify_entry e entry)]\<rparr>))))))"

section \<open>Lines of code and groups of mappings\<close>

text \<open>
  The pieces of a text between the occurrences of a separator: the lines of a code
  are its pieces between line feeds, and the groups of a mappings text, one for each
  line of the generated code, are its pieces between semicolons. A text always has
  a piece, so the first case of the inner \<open>case\<close> is never taken.
\<close>

fun split_on :: "char \<Rightarrow> string \<Rightarrow> string list" where
  "split_on c [] = [[]]"
| "split_on c (x # xs) =
     (if x = c then [] # split_on c xs
      else (case split_on c xs of [] \<Rightarrow> [[x]] | l # ls \<Rightarrow> (x # l) # ls))"

section \<open>A sample environment\<close>

text \<open>
  Concrete values for the imported functions, to run the hooks on concrete inputs.
  \<open>json_text\<close> is \<^verbatim>\<open>JSON.stringify\<close> of a text whose only characters in need
  of an escape are the double quote, the backslash and the line feed;
  \<open>sample_stringify_map\<close> is \<^verbatim>\<open>JSON.stringify\<close> of a map that differs from
  \<open>sample_map\<close> in its mappings only.
\<close>

definition json_text :: "string \<Rightarrow> string" where
  "json_text s =
     [CHR 0x22] @
     concat (map (\<lambda>c. if c = CHR 0x22 then [CHR 0x5C, CHR 0x22]
                      else if c = CHR 0x5C then [CHR 0x5C, CHR 0x5C]
                      else if c = CHR 0x0A then [CHR 0x5C, CHR ''n'']
                      else [c]) s) @
     [CHR 0x22]"

definition sample_map :: SourceMapPayload where
  "sample_map =
     \<lparr>sm_file = [], sm_version = 3, sm_sources = [], sm_sourcesContent = [],
      sm_names = [], mappings = ''AAAA;AACA'', sm_sourceRoot = []\<rparr>"

definition sample_stringify_map :: "SourceMapPayload \<Rightarrow> string" where
  "sample_stringify_map m =
     ''{\"file\":\"\",\"version\":3,\"sources\":[],\"sourcesContent\":[],\"names\":[],\"mappings\":''
     @ json_text (mappings m) @ '',\"sourceRoot\":\"\"}''"

definition sample_stringify_entry :: "CacheEntry \<Rightarrow> string" where
  "sample_stringify_entry c =
     ''{\"input\":'' @ json_text (entry_input c) @ '',\"code\":'' @ json_text (entry_code c)
     @ '',\"map\":'' @ sample_stringify_map (entry_map c) @ ''}''"

definition sample_map_text :: string where
  "sample_map_text = sample_stringify_map sample_map"

text \<open>
  \<open>sample_swc\<close> stands for a transformer run on small sources: it rejects the
  source \<open><\<close> with a diagnostic whose frame names line 12, column 5, and the source
  \<open>>\<close> with a message that has no frame; it copies any other source, and for the component \<open>sample_component\<close>, with \<^verbatim>\<open>refresh\<close>
  on, it appends the registration that the transformer emits for a component.
\<close>

definition sample_message :: string where
  "sample_message =
     ''  x Expression expected'' @ LF @ ''   '' @ frame_delimiter @ ''/p/src/a.tsx:12:5]''"

definition sample_component :: string where
  "sample_component = ''export function A() {}''"

definition sample_swc :: "string \<Rightarrow> swc_options \<Rightarrow> string + Output" where
  "sample_swc src opts =
     (if src = ''<'' then Inl sample_message
      else if src = ''>'' then Inl ''failed to read input''
      else Inr \<lparr>out_code =
                  (if opt_refresh opts \<and> src = sample_component
                   then src @ LF @ ''_c = A;'' @ LF @ ''var _c;'' @ LF @ ''$RefreshReg$(_c, \"A\");''
                   else src),
                out_map = Some sample_map_text\<rparr>)"

text \<open>\<^verbatim>\<open>relative\<close> for an id below the root.\<close>

definition sample_relative :: "string \<Rightarrow> string \<Rightarrow> string" where
  "sample_relative r ident =
     (if startsWith ident (r @ ''/'') then drop (length r + 1) ident else ident)"

text \<open>
  \<^verbatim>\<open>JSON.parse\<close> on the texts the examples use; any other text stands for a
  malformed one.
\<close>

definition sample_JSON_parse :: "string \<Rightarrow> json option" where
  "sample_JSON_parse t =
     (if t = ''{\"version\":\"1-1.3.42\"}'' then Some (JObject [(''version'', JString ''1-1.3.42'')])
      else if t = ''{\"version\":\"1-1.3.41\"}'' then Some (JObject [(''version'', JString ''1-1.3.41'')])
      else if t = ''5'' then Some (JNumber 5)
      else if t = ''null'' then Some JNull
      else None)"

definition sample_entry :: CacheEntry where
  "sample_entry = \<lparr>entry_input = ''a'', entry_code = ''b'', entry_map = sample_map\<rparr>"

definition sample_entry_text :: string where
  "sample_entry_text = sample_stringify_entry sample_entry"

definition sample_env :: env where
  "sample_env =
     \<lparr>swc_transform = sample_swc,
      swcVersion = ''1.3.42'',
      path_relative = sample_relative,
      JSON_parse = sample_JSON_parse,
      parse_entry = (\<lambda>t. if t = sample_entry_text then Some sample_entry else None),
      parse_map = (\<lambda>t. if t = sample_map_text then Some sample_map else None),
      stringify_entry = sample_stringify_entry,
      stringify_metadata = (\<lambda>v. ''{\"version\":'' @ json_text v @ ''}'')\<rparr>"

text \<open>A process that has resolved its configuration over an empty disk cache.\<close>

definition sample_state :: state where
  "sample_state =
     \<lparr>cache = [], root = Some ''/p'', cachePath = Some ''/p/.vite/swc-cache'',
      files = [(''/p/.vite/swc-cache/_metadata.json'', ''{\"version\":\"1-1.3.42\"}'')],
      dirs = [''/p'', ''/p/.vite'', ''/p/.vite/swc-cache''],
      writes_issued = [], swc_calls = []\<rparr>"

text \<open>A process at its start, over a disk that holds the cache of another version.\<close>

definition old_state :: state where
  "old_state =
     \<lparr>cache = [], root = None, cachePath = None,
      files = [(''/p/.vite/swc-cache/_metadata.json'', ''{\"version\":\"1-1.3.41\"}''),
               (''/p/.vite/swc-cache/src|a.tsx.json'', sample_entry_text)],
      dirs = [''/p'', ''/p/.vite'', ''/p/.vite/swc-cache''],
      writes_issued = [], swc_calls = []\<rparr>"

definition sample_config :: ResolvedConfig where
  "sample_config = \<lparr>cfg_root = ''/p'', cfg_cacheDir = ''/p/.vite''\<rparr>"

section \<open>Facts about the string functions\<close>

lemma startsWith_prefix: "startsWith s t = prefix t s"
  by (induction s t rule: startsWith.induct) auto

lemma endsWith_suffix: "endsWith s t = suffix t s"
  by (simp add: endsWith_def startsWith_prefix suffix_to_prefix)

lemma str_includes_sublist: "str_includes s t = sublist t s"
proof (induction s)
  case Nil
  then show ?case by simp
next
  case (Cons c cs)
  then show ?case
    by (cases t) (auto simp: startsWith_prefix sublist_Cons_right)
qed

lemma replace_slashes_inj:
  assumes "CHR ''|'' \<notin> set a" and "CHR ''|'' \<notin> set b"
    and "replace_slashes a = replace_slashes b"
  shows "a = b"
  using assms
proof (induction a arbitrary: b)
  case Nil
  then show ?case by (simp add: replace_slashes_def)
next
  case (Cons x xs)
  then obtain y ys where b: "b = y # ys"
    by (cases b) (auto simp: replace_slashes_def)
  from Cons.prems b have "x = y"
    by (auto simp: replace_slashes_def split: if_splits)
  moreover from Cons.prems b have "xs = ys"
    by (intro Cons.IH) (auto simp: replace_slashes_def)
  ultimately show ?case by (simp add: b)
qed

lemma replace_slashes_srr:
  assumes "CHR ''|'' \<notin> set a" and "CHR ''|'' \<notin> set b"
    and "replace_slashes a = replace_slashes b @ ''-srr''"
  shows "a = b @ ''-srr''"
proof -
  have "replace_slashes (b @ ''-srr'') = replace_slashes b @ ''-srr''"
    by (simp add: replace_slashes_def)
  with assms(3) have e: "replace_slashes a = replace_slashes (b @ ''-srr'')"
    by simp
  have nb: "CHR ''|'' \<notin> set (b @ ''-srr'')"
    using assms(2) by simp
  show ?thesis
    by (rule replace_slashes_inj [OF assms(1) nb e])
qed

section \<open>The file identity key: claim C5\<close>

lemma endsWith_append_self: "endsWith (a @ t) t"
  by (simp add: endsWith_suffix suffix_def)

lemma fileCachePath_same_target:
  assumes "CHR ''|'' \<notin> set r1" and "CHR ''|'' \<notin> set r2"
    and "fileCachePath r1 s = fileCachePath r2 s"
  shows "r1 = r2"
  using assms by (auto simp: fileCachePath_def intro: replace_slashes_inj)

lemma fileCachePath_other_target:
  assumes "CHR ''|'' \<notin> set r1" and "CHR ''|'' \<notin> set r2"
    and "fileCachePath r1 False = fileCachePath r2 True"
  shows "endsWith r1 ''-srr''"
proof -
  from assms(3) have "replace_slashes r1 = replace_slashes r2 @ ''-srr''"
    by (simp add: fileCachePath_def)
  then have "r1 = r2 @ ''-srr''"
    by (rule replace_slashes_srr [OF assms(1) assms(2)])
  then show ?thesis
    by (simp add: endsWith_append_self)
qed

text \<open>
  Claim C5, as stated: the derivation of the key is injective on file identities
  (project-relative path and target). It is not: a slash and a bar in a path give the
  same key, so the file \<open>b.tsx\<close> of the directory \<open>a\<close> and the file \<open>a|b.tsx\<close>
  share one.
\<close>

theorem fileCachePath_collision:
  "fileCachePath ''a/b.tsx'' False = fileCachePath ''a|b.tsx'' False
   \<and> ''a/b.tsx'' \<noteq> ''a|b.tsx''"
  by (simp add: fileCachePath_def replace_slashes_def)

text \<open>
  Claim C5, amended: two distinct identities whose paths hold no bar and do not end
  in \<open>-srr\<close> (no path that ends in \<open>.tsx\<close>, \<open>.ts\<close> or \<open>.jsx\<close> does) have distinct
  keys; and whatever the path, its key for the normal target and its key for the
  server target are distinct.
\<close>

theorem fileCachePath_injective:
  assumes "CHR ''|'' \<notin> set r1" and "CHR ''|'' \<notin> set r2"
    and "\<not> endsWith r1 ''-srr''" and "\<not> endsWith r2 ''-srr''"
    and "(r1, s1) \<noteq> (r2, s2)"
  shows "fileCachePath r1 s1 \<noteq> fileCachePath r2 s2
         \<and> fileCachePath r False \<noteq> fileCachePath r True"
proof
  show "fileCachePath r1 s1 \<noteq> fileCachePath r2 s2"
  proof
    assume eq: "fileCachePath r1 s1 = fileCachePath r2 s2"
    show False
    proof (cases "s1 = s2")
      case True
      with eq assms(1,2) have "r1 = r2"
        by (auto dest: fileCachePath_same_target)
      with True assms(5) show False by simp
    next
      case False
      then consider "\<not> s1 \<and> s2" | "s1 \<and> \<not> s2" by auto
      then show False
      proof cases
        case 1
        with eq have "fileCachePath r1 False = fileCachePath r2 True" by simp
        from fileCachePath_other_target [OF assms(1) assms(2) this] assms(3)
        show False by simp
      next
        case 2
        with eq have "fileCachePath r2 False = fileCachePath r1 True" by simp
        from fileCachePath_other_target [OF assms(2) assms(1) this] assms(4)
        show False by simp
      qed
    qed
  qed
  show "fileCachePath r False \<noteq> fileCachePath r True"
  proof
    assume "fileCachePath r False = fileCachePath r True"
    then have "length (fileCachePath r False) = length (fileCachePath r True)"
      by simp
    then show False by (simp add: fileCachePath_def)
  qed
qed

theorem fileCachePath_injective_witness:
  "CHR ''|'' \<notin> set ''src/a.tsx'' \<and> \<not> endsWith ''src/a.tsx'' ''-srr''
   \<and> (''src/a.tsx'', False) \<noteq> (''src/a.tsx'', True)
   \<and> fileCachePath ''src/a.tsx'' False \<noteq> fileCachePath ''src/a.tsx'' True
   \<and> fileCachePath ''src/a.tsx'' False = ''src|a.tsx.json''
   \<and> fileCachePath ''src/a.tsx'' True = ''src|a.tsx-srr.json''"
  using fileCachePath_injective [of "''src/a.tsx''" "''src/a.tsx''" False True]
  by (simp add: fileCachePath_def replace_slashes_def endsWith_def)

section \<open>Files that are skipped: claim C7\<close>

text \<open>
  Claim C7: for an id that includes \<open>node_modules\<close>, and for an id that ends in
  none of \<open>.tsx\<close>, \<open>.ts\<close> and \<open>.jsx\<close>, the hook returns nothing and leaves the
  state as it was: no call to the transformer, the cache, the disk and the writes
  issued unchanged.
\<close>

theorem transform_skips:
  assumes "str_includes ident ''node_modules''
           \<or> (\<not> endsWith ident ''.tsx'' \<and> \<not> endsWith ident ''.ts''
              \<and> \<not> endsWith ident ''.jsx'')"
  shows "transform e src ident topts st = (Inr None, st)"
  using assms by (auto simp: transform_def parser_for_def)

theorem transform_skips_witness:
  "str_includes ''/p/node_modules/react/index.tsx'' ''node_modules''
   \<and> transform sample_env ''x'' ''/p/node_modules/react/index.tsx'' None sample_state
       = (Inr None, sample_state)
   \<and> \<not> endsWith ''/p/src/a.js'' ''.tsx'' \<and> \<not> endsWith ''/p/src/a.js'' ''.ts''
   \<and> \<not> endsWith ''/p/src/a.js'' ''.jsx''
   \<and> transform sample_env ''x'' ''/p/src/a.js'' None sample_state = (Inr None, sample_state)"
  using transform_skips [of "''/p/node_modules/react/index.tsx''" sample_env "''x''" None sample_state]
    transform_skips [of "''/p/src/a.js''" sample_env "''x''" None sample_state]
  by (simp add: endsWith_def)

section \<open>Resolving the configuration again: claim C9\<close>

text \<open>
  Claim C9: when the cache holds an entry, the hook \<open>configResolved\<close> returns at
  once and changes nothing: the cache, \<open>root\<close>, \<open>cachePath\<close> and the disk are as
  they were.
\<close>

theorem configResolved_populated:
  assumes "cache st \<noteq> []"
  shows "configResolved e config st = (None, st)"
  using assms by (simp add: configResolved_def)

theorem configResolved_populated_witness:
  "cache (sample_state\<lparr>cache := [(''src|a.tsx.json'', sample_entry)]\<rparr>) \<noteq> []
   \<and> configResolved sample_env sample_config
        (sample_state\<lparr>cache := [(''src|a.tsx.json'', sample_entry)]\<rparr>)
       = (None, sample_state\<lparr>cache := [(''src|a.tsx.json'', sample_entry)]\<rparr>)"
  using configResolved_populated
    [of "sample_state\<lparr>cache := [(''src|a.tsx.json'', sample_entry)]\<rparr>" sample_env sample_config]
  by simp


section \<open>The paths through \<open>transform\<close>\<close>

lemma transform_cache: "cache (snd (transform e src ident topts st)) = cache st"
  by (simp add: transform_def Let_def split: option.splits sum.splits prod.splits)

lemma transform_root: "root (snd (transform e src ident topts st)) = root st"
  by (simp add: transform_def Let_def split: option.splits sum.splits prod.splits)

lemma transform_hit:
  assumes "\<not> str_includes ident ''node_modules''" and "parser_for ident = Some parser"
    and "root st = Some r"
    and "map_of (cache st) (fileCachePath (path_relative e r ident) (truthy (ssr_of topts))) = Some c"
    and "entry_input c = src"
  shows "transform e src ident topts st
         = (Inr (Some \<lparr>res_code = entry_code c, res_map = entry_map c\<rparr>), st)"
  using assms by (simp add: transform_def Let_def)

lemma transform_miss:
  assumes "\<not> str_includes ident ''node_modules''" and "parser_for ident = Some parser"
    and "root st = Some r"
    and "map_option entry_input
           (map_of (cache st) (fileCachePath (path_relative e r ident) (truthy (ssr_of topts))))
         \<noteq> Some src"
  shows "transform e src ident topts st =
     (let opts = swc_options_for ident parser (ssr_of topts);
          st1 = st\<lparr>swc_calls := swc_calls st @ [(src, opts)]\<rparr>
      in case swc_transform e src opts of
           Inl msg \<Rightarrow> (Inl (catch_error msg), st1)
         | Inr result \<Rightarrow>
             (case Option.bind (out_map result) (parse_map e) of
                None \<Rightarrow> (Inl SyntaxError, st1)
              | Some sourceMap \<Rightarrow>
                  (Inr (Some \<lparr>res_code = fst (inject_refresh ident (out_code result) sourceMap),
                              res_map = snd (inject_refresh ident (out_code result) sourceMap)\<rparr>),
                   st1\<lparr>writes_issued := writes_issued st1 @
                        [(in_template (cachePath st1) @ ''/'' @
                            fileCachePath (path_relative e r ident) (truthy (ssr_of topts)),
                          stringify_entry e
                            \<lparr>entry_input = src,
                             entry_code = fst (inject_refresh ident (out_code result) sourceMap),
                             entry_map = snd (inject_refresh ident (out_code result) sourceMap)\<rparr>)]\<rparr>)))"
  using assms
  by (auto simp: transform_def Let_def split_beta split: option.splits sum.splits)

lemma transform_miss_calls:
  assumes "\<not> str_includes ident ''node_modules''" and "parser_for ident = Some parser"
    and "root st = Some r"
    and "map_option entry_input
           (map_of (cache st) (fileCachePath (path_relative e r ident) (truthy (ssr_of topts))))
         \<noteq> Some src"
  shows "swc_calls (snd (transform e src ident topts st))
         = swc_calls st @ [(src, swc_options_for ident parser (ssr_of topts))]"
  by (simp add: transform_miss [OF assms] Let_def split: option.splits sum.splits)

lemma transform_miss_result:
  assumes "\<not> str_includes ident ''node_modules''" and "parser_for ident = Some parser"
    and "root st = Some r"
    and "map_option entry_input
           (map_of (cache st) (fileCachePath (path_relative e r ident) (truthy (ssr_of topts))))
         \<noteq> Some src"
  shows "fst (transform e src ident topts st)
         = fst (transform e src ident topts (st\<lparr>cache := []\<rparr>))"
proof -
  have "map_option entry_input
          (map_of (cache (st\<lparr>cache := []\<rparr>))
             (fileCachePath (path_relative e r ident) (truthy (ssr_of topts))))
        \<noteq> Some src"
    by simp
  from transform_miss [OF assms(1,2) _ this] assms(3)
  have "transform e src ident topts (st\<lparr>cache := []\<rparr>) = 
     (let opts = swc_options_for ident parser (ssr_of topts);
          st1 = st\<lparr>cache := [], swc_calls := swc_calls st @ [(src, opts)]\<rparr>
      in case swc_transform e src opts of
           Inl msg \<Rightarrow> (Inl (catch_error msg), st1)
         | Inr result \<Rightarrow>
             (case Option.bind (out_map result) (parse_map e) of
                None \<Rightarrow> (Inl SyntaxError, st1)
              | Some sourceMap \<Rightarrow>
                  (Inr (Some \<lparr>res_code = fst (inject_refresh ident (out_code result) sourceMap),
                              res_map = snd (inject_refresh ident (out_code result) sourceMap)\<rparr>),
                   st1\<lparr>writes_issued := writes_issued st1 @
                        [(in_template (cachePath st1) @ ''/'' @
                            fileCachePath (path_relative e r ident) (truthy (ssr_of topts)),
                          stringify_entry e
                            \<lparr>entry_input = src,
                             entry_code = fst (inject_refresh ident (out_code result) sourceMap),
                             entry_map = snd (inject_refresh ident (out_code result) sourceMap)\<rparr>)]\<rparr>)))"
    by simp
  then show ?thesis
    by (simp add: transform_miss [OF assms] Let_def split: option.splits sum.splits)
qed


lemmas sample_simps =
  transform_def sample_env_def sample_state_def sample_swc_def parser_for_def
  endsWith_def fileCachePath_def replace_slashes_def sample_relative_def ssr_of_def
  truthy_def swc_options_for_def inject_refresh_def sample_map_text_def in_template_def
  sample_component_def sample_entry_def sample_map_def LF_def Let_def
  sample_stringify_map_def sample_stringify_entry_def json_text_def

section \<open>The cache is answered from on an exact match only: claim C2\<close>

text \<open>
  Claim C2. For a file that is not skipped, in a process that has resolved its
  configuration:
  \<^item> for every entry \<open>c\<close> under the file's key and every source text, the hook takes
    the fast path (it returns the code and the map of \<open>c\<close> and leaves the state as it
    was, the transformer not called) if and only if the input of \<open>c\<close> is the source
    text, character for character;
  \<^item> for two different source texts \<open>s1\<close> and \<open>s2\<close>, the call for \<open>s1\<close> followed
    by the call for \<open>s2\<close>: the second call either calls the transformer on \<open>s2\<close>
    and returns what it would return with an empty cache, or it answers from an
    entry whose input is \<open>s2\<close>; it never answers from what was kept for \<open>s1\<close>.
\<close>

theorem cache_hit_exact_input:
  assumes "\<not> str_includes ident ''node_modules''" and "parser_for ident = Some parser"
    and "root st = Some r"
  shows "(\<forall>c. map_of (cache st) (fileCachePath (path_relative e r ident) (truthy (ssr_of topts)))
                = Some c \<longrightarrow>
             (transform e src ident topts st
                = (Inr (Some \<lparr>res_code = entry_code c, res_map = entry_map c\<rparr>), st))
             = (entry_input c = src))
       \<and> (s1 \<noteq> s2 \<longrightarrow>
            (let st1 = snd (transform e s1 ident topts st);
                 out2 = transform e s2 ident topts st1
             in (swc_calls (snd out2)
                   = swc_calls st1 @ [(s2, swc_options_for ident parser (ssr_of topts))]
                 \<and> fst out2 = fst (transform e s2 ident topts (st1\<lparr>cache := []\<rparr>)))
                \<or> (\<exists>c. map_of (cache st)
                           (fileCachePath (path_relative e r ident) (truthy (ssr_of topts)))
                         = Some c
                        \<and> entry_input c = s2
                        \<and> out2 = (Inr (Some \<lparr>res_code = entry_code c,
                                                 res_map = entry_map c\<rparr>), st1))))"
proof (intro conjI allI impI)
  fix c
  assume c: "map_of (cache st) (fileCachePath (path_relative e r ident) (truthy (ssr_of topts)))
             = Some c"
  show "(transform e src ident topts st
           = (Inr (Some \<lparr>res_code = entry_code c, res_map = entry_map c\<rparr>), st))
        = (entry_input c = src)"
  proof
    assume hit: "transform e src ident topts st
                 = (Inr (Some \<lparr>res_code = entry_code c, res_map = entry_map c\<rparr>), st)"
    show "entry_input c = src"
    proof (rule ccontr)
      assume "entry_input c \<noteq> src"
      with c have "map_option entry_input
          (map_of (cache st) (fileCachePath (path_relative e r ident) (truthy (ssr_of topts))))
        \<noteq> Some src"
        by simp
      from transform_miss_calls [OF assms this] hit show False by simp
    qed
  next
    assume "entry_input c = src"
    from transform_hit [OF assms c this] show "transform e src ident topts st
           = (Inr (Some \<lparr>res_code = entry_code c, res_map = entry_map c\<rparr>), st)" .
  qed
next
  assume "s1 \<noteq> s2"
  define st1 where "st1 = snd (transform e s1 ident topts st)"
  have r1: "root st1 = Some r" and c1: "cache st1 = cache st"
    by (simp_all add: st1_def transform_root transform_cache assms(3))
  show "let st1 = snd (transform e s1 ident topts st);
            out2 = transform e s2 ident topts st1
        in (swc_calls (snd out2)
              = swc_calls st1 @ [(s2, swc_options_for ident parser (ssr_of topts))]
            \<and> fst out2 = fst (transform e s2 ident topts (st1\<lparr>cache := []\<rparr>)))
           \<or> (\<exists>c. map_of (cache st)
                      (fileCachePath (path_relative e r ident) (truthy (ssr_of topts)))
                    = Some c
                   \<and> entry_input c = s2
                   \<and> out2 = (Inr (Some \<lparr>res_code = entry_code c,
                                            res_map = entry_map c\<rparr>), st1))"
  proof (cases "map_option entry_input
          (map_of (cache st1) (fileCachePath (path_relative e r ident) (truthy (ssr_of topts))))
        = Some s2")
    case True
    then obtain c where c: "map_of (cache st1)
        (fileCachePath (path_relative e r ident) (truthy (ssr_of topts))) = Some c"
      and i: "entry_input c = s2"
      by auto
    from transform_hit [OF assms(1,2) r1 c i] c i c1 show ?thesis
      by (simp add: Let_def st1_def [symmetric])
  next
    case False
    from transform_miss_calls [OF assms(1,2) r1 False]
      transform_miss_result [OF assms(1,2) r1 False]
    show ?thesis
      by (simp add: Let_def st1_def [symmetric])
  qed
qed

theorem cache_hit_exact_input_witness:
  "\<not> str_includes ''/p/src/a.tsx'' ''node_modules''
   \<and> parser_for ''/p/src/a.tsx'' = Some (Typescript True)
   \<and> root (sample_state\<lparr>cache := [(''src|a.tsx.json'', sample_entry)]\<rparr>) = Some ''/p''
   \<and> transform sample_env ''a'' ''/p/src/a.tsx'' None
        (sample_state\<lparr>cache := [(''src|a.tsx.json'', sample_entry)]\<rparr>)
      = (Inr (Some \<lparr>res_code = ''b'', res_map = sample_map\<rparr>),
         sample_state\<lparr>cache := [(''src|a.tsx.json'', sample_entry)]\<rparr>)
   \<and> transform sample_env ''a '' ''/p/src/a.tsx'' None
        (sample_state\<lparr>cache := [(''src|a.tsx.json'', sample_entry)]\<rparr>)
      \<noteq> (Inr (Some \<lparr>res_code = ''b'', res_map = sample_map\<rparr>),
         sample_state\<lparr>cache := [(''src|a.tsx.json'', sample_entry)]\<rparr>)
   \<and> swc_calls (snd (transform sample_env ''a '' ''/p/src/a.tsx'' None
        (snd (transform sample_env ''a'' ''/p/src/a.tsx'' None
           (sample_state\<lparr>cache := [(''src|a.tsx.json'', sample_entry)]\<rparr>)))))
      = [(''a '', swc_options_for ''/p/src/a.tsx'' (Typescript True) None)]"
  using cache_hit_exact_input
    [of "''/p/src/a.tsx''" "Typescript True"
      "sample_state\<lparr>cache := [(''src|a.tsx.json'', sample_entry)]\<rparr>" "''/p''"
      sample_env None "''a''" "''a''" "''a ''"]
  by (simp add: sample_simps)


section \<open>What a compile leaves behind: claim C1\<close>

text \<open>
  Claim C1, as stated: once the hook has compiled a source text, the cache holds the
  entry under the file's key, and a second call with the same text is answered from
  the cache, the transformer not called again. It is not so: the hook sets nothing in
  the cache. Here the source \<open>x\<close> of \<open>/p/src/a.tsx\<close> is compiled; afterwards the
  cache has no entry under the key, and the second call is the second call to the
  transformer.
\<close>

theorem transform_leaves_cache_empty:
  "fst (transform sample_env ''x'' ''/p/src/a.tsx'' None sample_state)
     = Inr (Some \<lparr>res_code = ''x'', res_map = sample_map\<rparr>)
   \<and> map_of (cache (snd (transform sample_env ''x'' ''/p/src/a.tsx'' None sample_state)))
        (fileCachePath (sample_relative ''/p'' ''/p/src/a.tsx'') False) = None
   \<and> length (swc_calls (snd (transform sample_env ''x'' ''/p/src/a.tsx'' None
        (snd (transform sample_env ''x'' ''/p/src/a.tsx'' None sample_state))))) = 2"
  by (simp add: sample_simps)

text \<open>
  Claim C1, amended. When the hook has compiled the source text \<open>src\<close> of a file
  (the cache held no entry with that input under the file's key, and the hook
  returned \<open>res\<close>):
  \<^item> the cache is as it was before;
  \<^item> one write was issued and not awaited, of the entry with the input \<open>src\<close> and
    the code and the map of \<open>res\<close>, to the file named by the key in the cache
    directory;
  \<^item> a second call with the same file, target and source text calls the transformer
    a second time, with the same arguments, and returns \<open>res\<close> again.
  The cache answers for a source text only when it held an entry with that input
  before, which is claim C2.
\<close>

theorem transform_compile_not_cached:
  assumes "\<not> str_includes ident ''node_modules''" and "parser_for ident = Some parser"
    and "root st = Some r"
    and "map_option entry_input
           (map_of (cache st) (fileCachePath (path_relative e r ident) (truthy (ssr_of topts))))
         \<noteq> Some src"
    and "transform e src ident topts st = (Inr (Some res), st1)"
  shows "cache st1 = cache st
       \<and> files st1 = files st
       \<and> writes_issued st1 = writes_issued st @
           [(in_template (cachePath st) @ ''/'' @
               fileCachePath (path_relative e r ident) (truthy (ssr_of topts)),
             stringify_entry e
               \<lparr>entry_input = src, entry_code = res_code res, entry_map = res_map res\<rparr>)]
       \<and> fst (transform e src ident topts st1) = Inr (Some res)
       \<and> swc_calls (snd (transform e src ident topts st1))
           = swc_calls st @ [(src, swc_options_for ident parser (ssr_of topts)),
                             (src, swc_options_for ident parser (ssr_of topts))]"
proof -
  let ?opts = "swc_options_for ident parser (ssr_of topts)"
  let ?key = "fileCachePath (path_relative e r ident) (truthy (ssr_of topts))"
  from assms(5) transform_miss [OF assms(1-4)]
  obtain result sourceMap where swc: "swc_transform e src ?opts = Inr result"
    and sm: "Option.bind (out_map result) (parse_map e) = Some sourceMap"
    and res: "res = \<lparr>res_code = fst (inject_refresh ident (out_code result) sourceMap),
                      res_map = snd (inject_refresh ident (out_code result) sourceMap)\<rparr>"
    and st1: "st1 = st\<lparr>swc_calls := swc_calls st @ [(src, ?opts)],
                        writes_issued := writes_issued st @
                          [(in_template (cachePath st) @ ''/'' @ ?key,
                            stringify_entry e
                              \<lparr>entry_input = src,
                               entry_code = fst (inject_refresh ident (out_code result) sourceMap),
                               entry_map = snd (inject_refresh ident (out_code result) sourceMap)\<rparr>)]\<rparr>"
    by (auto simp: Let_def split: sum.splits option.splits)
  have r1: "root st1 = Some r" and c1: "cache st1 = cache st"
    using assms(3) by (simp_all add: st1)
  have miss1: "map_option entry_input (map_of (cache st1) ?key) \<noteq> Some src"
    using assms(4) c1 by simp
  have calls1: "swc_calls st1 = swc_calls st @ [(src, ?opts)]"
    by (simp add: st1)
  have again: "fst (transform e src ident topts st1) = Inr (Some res)"
    by (simp add: transform_miss [OF assms(1,2) r1 miss1] Let_def swc sm res)
  from c1 again transform_miss_calls [OF assms(1,2) r1 miss1] calls1
  show ?thesis
    by (simp add: st1 res)
qed

theorem transform_compile_not_cached_witness:
  "\<not> str_includes ''/p/src/a.tsx'' ''node_modules''
   \<and> parser_for ''/p/src/a.tsx'' = Some (Typescript True)
   \<and> root sample_state = Some ''/p''
   \<and> transform sample_env ''x'' ''/p/src/a.tsx'' None sample_state
       = (Inr (Some \<lparr>res_code = ''x'', res_map = sample_map\<rparr>),
          sample_state\<lparr>swc_calls := [(''x'', swc_options_for ''/p/src/a.tsx'' (Typescript True) None)],
             writes_issued := [(''/p/.vite/swc-cache/src|a.tsx.json'',
               sample_stringify_entry
                 \<lparr>entry_input = ''x'', entry_code = ''x'', entry_map = sample_map\<rparr>)]\<rparr>)
   \<and> cache (sample_state\<lparr>swc_calls := [(''x'', swc_options_for ''/p/src/a.tsx'' (Typescript True) None)],
             writes_issued := [(''/p/.vite/swc-cache/src|a.tsx.json'',
               sample_stringify_entry
                 \<lparr>entry_input = ''x'', entry_code = ''x'', entry_map = sample_map\<rparr>)]\<rparr>) = []
   \<and> fst (transform sample_env ''x'' ''/p/src/a.tsx'' None
        (sample_state\<lparr>swc_calls := [(''x'', swc_options_for ''/p/src/a.tsx'' (Typescript True) None)],
             writes_issued := [(''/p/.vite/swc-cache/src|a.tsx.json'',
               sample_stringify_entry
                 \<lparr>entry_input = ''x'', entry_code = ''x'', entry_map = sample_map\<rparr>)]\<rparr>))
       = Inr (Some \<lparr>res_code = ''x'', res_map = sample_map\<rparr>)"
  using transform_compile_not_cached
    [of "''/p/src/a.tsx''" "Typescript True" sample_state "''/p''" sample_env None "''x''"
      "\<lparr>res_code = ''x'', res_map = sample_map\<rparr>"
      "sample_state\<lparr>swc_calls := [(''x'', swc_options_for ''/p/src/a.tsx'' (Typescript True) None)],
             writes_issued := [(''/p/.vite/swc-cache/src|a.tsx.json'',
               sample_stringify_entry
                 \<lparr>entry_input = ''x'', entry_code = ''x'', entry_map = sample_map\<rparr>)]\<rparr>"]
  by (simp add: sample_simps)

section \<open>The server target: claim C4\<close>

text \<open>
  What the code does keep of claim C4: for the server target the transformer is
  called with \<^verbatim>\<open>refresh\<close> off (line 129), and a compiled code that does not
  include the marker is returned as the transformer gave it, with the parsed map.
\<close>

lemma transform_ssr_without_marker:
  assumes "\<not> str_includes ident ''node_modules''" and "parser_for ident = Some parser"
    and "root st = Some r"
    and "truthy (ssr_of topts)"
    and "map_option entry_input
           (map_of (cache st) (fileCachePath (path_relative e r ident) (truthy (ssr_of topts))))
         \<noteq> Some src"
    and "swc_transform e src (swc_options_for ident parser (ssr_of topts)) = Inr result"
    and "Option.bind (out_map result) (parse_map e) = Some sourceMap"
    and "\<not> str_includes (out_code result) ''$RefreshReg$''"
  shows "\<not> opt_refresh (swc_options_for ident parser (ssr_of topts))
       \<and> swc_calls (snd (transform e src ident topts st))
           = swc_calls st @ [(src, swc_options_for ident parser (ssr_of topts))]
       \<and> fst (transform e src ident topts st)
           = Inr (Some \<lparr>res_code = out_code result, res_map = sourceMap\<rparr>)"
  using assms(4,6,7,8) transform_miss_calls [OF assms(1,2,3,5)]
  by (simp add: transform_miss [OF assms(1,2,3,5)] Let_def inject_refresh_def
      swc_options_for_def)

text \<open>
  Claim C4: what the hook returns for the server target never holds the injected
  instrumentation (the import of the runtime, the guard of the preamble, the saving
  and restoring of the two hooks, the handler of hot updates), whether or not the
  compiled code includes the marker. The code misses it: line 129 turns the
  instrumentation of the transformer off for the server target, but the injection of
  line 152 is taken on the marker alone and has no test of the target. Here a source
  that names the marker in a text literal is compiled for the server target: the
  transformer is called once, with \<^verbatim>\<open>refresh\<close> off, and copies the literal; the
  hook returns the code inside the template, which opens with the import of the
  runtime, tests \<^verbatim>\<open>window\<close> for the preamble and ends with the handler of hot
  updates.
\<close>

theorem transform_ssr_injects:
  "fst (transform sample_env ''const s = \"$RefreshReg$\";'' ''/p/src/a.ts''
          (Some \<lparr>ssr = Some True\<rparr>) sample_state)
     = Inr (Some \<lparr>res_code = refresh_head ''/p/src/a.ts'' @ ''const s = \"$RefreshReg$\";''
                                @ refresh_tail,
                    res_map = sample_map\<lparr>mappings := '';;;;;;;;AAAA;AACA''\<rparr>\<rparr>)
   \<and> map (\<lambda>(src, opts). (src, opt_refresh opts))
        (swc_calls (snd (transform sample_env ''const s = \"$RefreshReg$\";'' ''/p/src/a.ts''
          (Some \<lparr>ssr = Some True\<rparr>) sample_state)))
     = [(''const s = \"$RefreshReg$\";'', False)]
   \<and> startsWith (refresh_head ''/p/src/a.ts'')
        ''import * as RefreshRuntime from \"/@react-refresh\";''
   \<and> str_includes (refresh_head ''/p/src/a.ts'')
        ''if (!window.$RefreshReg$) throw new Error''
   \<and> str_includes refresh_tail ''import.meta.hot.accept''"
  by (simp add: sample_simps refresh_head_def refresh_tail_def runtimePublicPath_def)

section \<open>Facts about the search for the position\<close>

lemma indexOf_from_none: "\<not> str_includes s t \<Longrightarrow> indexOf_from n s t = - 1"
  by (induction s arbitrary: n) auto

lemma indexOf_none: "\<not> str_includes s t \<Longrightarrow> indexOf s t = - 1"
  by (simp add: indexOf_def indexOf_from_none)

lemma startsWith_short:
  assumes "startsWith (p @ s) t" and "length t \<le> length p"
  shows "startsWith p t"
  using assms by (auto simp: startsWith_prefix prefix_def append_eq_append_conv2)

text \<open>
  No ending of the delimiter is a beginning of it, so an occurrence cannot start
  before another one and run into it.
\<close>

lemma frame_delimiter_no_overlap:
  assumes "p \<noteq> []" and "length p < 7"
  shows "\<not> startsWith (p @ frame_delimiter @ s) frame_delimiter"
proof -
  from assms obtain a p1 where p: "p = a # p1" by (cases p) auto
  show ?thesis
  proof (cases p1)
    case Nil
    with p show ?thesis by (simp add: frame_delimiter_def)
  next
    case (Cons b p2)
    note c1 = this
    show ?thesis
    proof (cases p2)
      case Nil
      with p c1 show ?thesis by (simp add: frame_delimiter_def)
    next
      case (Cons c p3)
      note c2 = this
      show ?thesis
      proof (cases p3)
        case Nil
        with p c1 c2 show ?thesis by (simp add: frame_delimiter_def)
      next
        case (Cons d p4)
        note c3 = this
        show ?thesis
        proof (cases p4)
          case Nil
          with p c1 c2 c3 show ?thesis by (simp add: frame_delimiter_def)
        next
          case (Cons f p5)
          note c4 = this
          show ?thesis
          proof (cases p5)
            case Nil
            with p c1 c2 c3 c4 show ?thesis by (simp add: frame_delimiter_def)
          next
            case (Cons g p6)
            with assms(2) p c1 c2 c3 c4 have "p6 = []" by simp
            with p c1 c2 c3 c4 Cons show ?thesis by (simp add: frame_delimiter_def)
          qed
        qed
      qed
    qed
  qed
qed

lemma indexOf_from_first:
  assumes "\<not> str_includes pre frame_delimiter"
  shows "indexOf_from n (pre @ frame_delimiter @ s) frame_delimiter = int (n + length pre)"
  using assms
proof (induction pre arbitrary: n)
  case Nil
  then show ?case
    by (simp add: frame_delimiter_def)
next
  case (Cons x pre)
  have no: "\<not> startsWith ((x # pre) @ frame_delimiter @ s) frame_delimiter"
  proof (cases "length (x # pre) < 7")
    case True
    then show ?thesis
      by (intro frame_delimiter_no_overlap) simp_all
  next
    case False
    then have "length frame_delimiter \<le> length (x # pre)"
      by (simp add: frame_delimiter_def)
    with startsWith_short [of "x # pre" "frame_delimiter @ s" frame_delimiter] Cons.prems
    show ?thesis by auto
  qed
  from Cons.prems have "\<not> str_includes pre frame_delimiter" by simp
  from Cons.IH [OF this, of "Suc n"] no show ?case by simp
qed

lemma indexOf_first:
  "\<not> str_includes pre frame_delimiter \<Longrightarrow>
   indexOf (pre @ frame_delimiter @ s) frame_delimiter = int (length pre)"
  by (simp add: indexOf_def indexOf_from_first)

lemma digits_then_digits:
  assumes "ds \<noteq> []" and "\<forall>x\<in>set ds. digit x" and "\<not> digit y"
  shows "digits_then c (ds @ y # s) = (if y = c then Some (ds, s) else None)"
  using assms by (simp add: digits_then_def)

lemma takeWhile_before_stop:
  "\<not> P y \<Longrightarrow> takeWhile P (s @ y # t) = takeWhile P s"
  by (induction s) auto

lemma dropWhile_before_stop:
  "\<not> P y \<Longrightarrow> dropWhile P (s @ y # t) = dropWhile P s @ y # t"
  by (induction s) auto

lemma digits_then_append:
  assumes "\<not> digit y"
  shows "digits_then c (s @ y # t) =
     (case digits_then c s of
        Some (d, r) \<Rightarrow> Some (d, r @ y # t)
      | None \<Rightarrow> if s \<noteq> [] \<and> (\<forall>x\<in>set s. digit x) \<and> y = c then Some (s, t) else None)"
proof (cases "takeWhile digit s = []")
  case True
  then have "s = [] \<or> \<not> digit (hd s)"
    by (cases s) (auto split: if_splits)
  with True assms show ?thesis
    by (cases s) (auto simp: digits_then_def takeWhile_before_stop)
next
  case False
  show ?thesis
  proof (cases "dropWhile digit s")
    case Nil
    then have all: "\<forall>x\<in>set s. digit x"
      by (metis dropWhile_eq_Nil_conv)
    then have tw: "takeWhile digit s = s" by simp
    from False tw have ne: "s \<noteq> []" by auto
    have short: "digits_then c s = None"
      by (simp add: digits_then_def Nil Let_def)
    have long: "digits_then c (s @ y # t) = (if y = c then Some (s, t) else None)"
      using ne all assms by (rule digits_then_digits)
    from short long ne all show ?thesis by simp
  next
    case (Cons z r)
    then have "\<not> (\<forall>x\<in>set s. digit x)"
      by (metis dropWhile_eq_Nil_conv list.distinct(1))
    with False Cons assms show ?thesis
      by (auto simp: digits_then_def takeWhile_before_stop dropWhile_before_stop)
  qed
qed

lemma colon_no_digit: "\<not> digit CHR '':''" and bracket_no_digit: "\<not> digit CHR '']''"
  by (simp_all add: digit_def)

lemma match_here_pattern:
  assumes "l \<noteq> []" and "c \<noteq> []" and "\<forall>x\<in>set l. digit x" and "\<forall>x\<in>set c. digit x"
  shows "match_here ('':'' @ l @ '':'' @ c @ '']'' @ s) = Some (l, c)"
  using assms
  by (simp add: match_here_def digits_then_digits colon_no_digit bracket_no_digit)

lemma match_here_before_pattern:
  assumes "a \<noteq> []" and "match_here a = None"
    and "l \<noteq> []" and "\<forall>x\<in>set l. digit x"
  shows "match_here (a @ '':'' @ l @ '':'' @ t) = None"
proof -
  from assms(1) obtain x r1 where a: "a = x # r1" by (cases a) auto
  show ?thesis
  proof (cases "x = CHR '':''")
    case False
    with a show ?thesis by (simp add: match_here_def)
  next
    case True
    have after: "digits_then CHR '']'' (l @ CHR '':'' # t) = None"
      using assms(3,4) by (simp add: digits_then_digits colon_no_digit)
    show ?thesis
    proof (cases "digits_then CHR '':'' r1")
      case None
      with a True after show ?thesis
        by (simp add: match_here_def digits_then_append [OF colon_no_digit])
    next
      case (Some dr)
      obtain d1 r2 where dr: "dr = (d1, r2)" by (cases dr)
      from assms(2) a True Some dr have "digits_then CHR '']'' r2 = None"
        by (auto simp: match_here_def split: option.splits)
      with a True Some dr show ?thesis
        by (simp add: match_here_def digits_then_append [OF colon_no_digit])
    qed
  qed
qed

lemma regex_match_first:
  assumes "regex_match a = None"
    and "l \<noteq> []" and "c \<noteq> []" and "\<forall>x\<in>set l. digit x" and "\<forall>x\<in>set c. digit x"
  shows "regex_match (a @ '':'' @ l @ '':'' @ c @ '']'' @ s) = Some (l, c)"
  using assms(1)
proof (induction a)
  case Nil
  from match_here_pattern [OF assms(2,3,4,5), of s] show ?case by simp
next
  case (Cons x a)
  from Cons.prems have h: "match_here (x # a) = None" and r: "regex_match a = None"
    by (auto split: option.splits)
  from match_here_before_pattern [OF _ h assms(2,4), of "c @ '']'' @ s"]
  have "match_here (x # a @ '':'' @ l @ '':'' @ c @ '']'' @ s) = None" by simp
  with Cons.IH [OF r] show ?case by simp
qed


lemma catch_error_position:
  assumes "msg = pre @ frame_delimiter @ mid @ '':'' @ l @ '':'' @ c @ '']'' @ post"
    and "\<not> str_includes pre frame_delimiter"
    and "regex_match (frame_delimiter @ mid) = None"
    and "l \<noteq> []" and "c \<noteq> []" and "\<forall>x\<in>set l. digit x" and "\<forall>x\<in>set c. digit x"
  shows "catch_error msg = CompileError msg (Some l) (Some c)"
proof -
  have i: "indexOf msg frame_delimiter = int (length pre)"
    unfolding assms(1) by (rule indexOf_first [OF assms(2)])
  have "slice msg (int (length pre))
        = (frame_delimiter @ mid) @ '':'' @ l @ '':'' @ c @ '']'' @ post"
    by (simp add: slice_def assms(1))
  with regex_match_first [OF assms(3,4,5,6,7), of post]
  have "regex_match (slice msg (int (length pre))) = Some (l, c)"
    by simp
  with i show ?thesis
    by (simp add: catch_error_def)
qed

lemma catch_error_no_frame:
  "\<not> str_includes msg frame_delimiter \<Longrightarrow> catch_error msg = CompileError msg None None"
  by (simp add: catch_error_def indexOf_none)

section \<open>The error of the transformer: claim C6\<close>

text \<open>
  Claim C6. When the transformer fails with the message \<open>msg\<close>, the hook throws:
  the result is an error, nothing is recovered, and the state is the one before the
  call with the call to the transformer added.
  \<^item> When \<open>msg\<close> holds the frame delimiter, and what follows its first occurrence
    holds the pattern \<^verbatim>\<open>:<line>:<column>]\<close> (two non-empty runs of digits), with no
    complete pattern before it, the error carries that line and that column: for
    \<^verbatim>\<open>:12:5]\<close>, the line \<open>12\<close> and the column \<open>5\<close>.
  \<^item> When \<open>msg\<close> does not hold the delimiter, the error carries no line and no
    column.
\<close>

theorem compile_error_position:
  assumes "\<not> str_includes ident ''node_modules''" and "parser_for ident = Some parser"
    and "root st = Some r"
    and "map_option entry_input
           (map_of (cache st) (fileCachePath (path_relative e r ident) (truthy (ssr_of topts))))
         \<noteq> Some src"
    and "swc_transform e src (swc_options_for ident parser (ssr_of topts)) = Inl msg"
  shows "(\<forall>pre mid l c post.
            msg = pre @ frame_delimiter @ mid @ '':'' @ l @ '':'' @ c @ '']'' @ post
            \<and> \<not> str_includes pre frame_delimiter
            \<and> regex_match (frame_delimiter @ mid) = None
            \<and> l \<noteq> [] \<and> c \<noteq> [] \<and> (\<forall>x\<in>set l. digit x) \<and> (\<forall>x\<in>set c. digit x)
            \<longrightarrow> fst (transform e src ident topts st) = Inl (CompileError msg (Some l) (Some c)))
       \<and> (\<not> str_includes msg frame_delimiter
            \<longrightarrow> fst (transform e src ident topts st) = Inl (CompileError msg None None))
       \<and> (\<exists>err. fst (transform e src ident topts st) = Inl err \<and> message err = msg)
       \<and> snd (transform e src ident topts st)
           = st\<lparr>swc_calls := swc_calls st @ [(src, swc_options_for ident parser (ssr_of topts))]\<rparr>"
proof -
  have t: "transform e src ident topts st
           = (Inl (catch_error msg),
              st\<lparr>swc_calls := swc_calls st @ [(src, swc_options_for ident parser (ssr_of topts))]\<rparr>)"
    by (simp add: transform_miss [OF assms(1-4)] Let_def assms(5))
  have m: "message (catch_error msg) = msg"
    by (simp add: catch_error_def Let_def split: option.splits)
  from t m show ?thesis
    by (auto simp: catch_error_position catch_error_no_frame)
qed

theorem compile_error_position_witness:
  "\<not> str_includes ''/p/src/a.tsx'' ''node_modules''
   \<and> parser_for ''/p/src/a.tsx'' = Some (Typescript True)
   \<and> root sample_state = Some ''/p''
   \<and> swc_transform sample_env ''<'' (swc_options_for ''/p/src/a.tsx'' (Typescript True) None)
       = Inl sample_message
   \<and> sample_message = (''  x Expression expected'' @ LF @ ''   '') @ frame_delimiter
       @ ''/p/src/a.tsx'' @ '':'' @ ''12'' @ '':'' @ ''5'' @ '']'' @ []
   \<and> \<not> str_includes (''  x Expression expected'' @ LF @ ''   '') frame_delimiter
   \<and> regex_match (frame_delimiter @ ''/p/src/a.tsx'') = None
   \<and> fst (transform sample_env ''<'' ''/p/src/a.tsx'' None sample_state)
       = Inl (CompileError sample_message (Some ''12'') (Some ''5''))
   \<and> swc_transform sample_env ''>'' (swc_options_for ''/p/src/a.tsx'' (Typescript True) None)
       = Inl ''failed to read input''
   \<and> \<not> str_includes ''failed to read input'' frame_delimiter
   \<and> fst (transform sample_env ''>'' ''/p/src/a.tsx'' None sample_state)
       = Inl (CompileError ''failed to read input'' None None)
   \<and> snd (transform sample_env ''>'' ''/p/src/a.tsx'' None sample_state)
       = sample_state\<lparr>swc_calls :=
           [(''>'', swc_options_for ''/p/src/a.tsx'' (Typescript True) None)]\<rparr>"
  using compile_error_position
    [of "''/p/src/a.tsx''" "Typescript True" sample_state "''/p''" sample_env None "''<''"
      sample_message]
    compile_error_position
    [of "''/p/src/a.tsx''" "Typescript True" sample_state "''/p''" sample_env None "''>''"
      "''failed to read input''"]
  by (simp add: sample_simps sample_message_def frame_delimiter_def match_here_def
      digits_then_def digit_def catch_error_def indexOf_def slice_def)


section \<open>Facts about lines and groups\<close>

lemma split_on_not_Nil: "split_on c s \<noteq> []"
  by (induction s) (auto split: list.splits)

lemma length_split_on: "length (split_on c s) = Suc (count_list s c)"
  by (induction s) (auto simp: split_on_not_Nil split: list.splits)

lemma split_on_separator: "split_on c (a @ c # b) = split_on c a @ split_on c b"
proof (induction a)
  case Nil
  then show ?case by simp
next
  case (Cons x a)
  have "split_on c a \<noteq> []" by (rule split_on_not_Nil)
  with Cons show ?case by (cases "split_on c a") auto
qed

lemma split_on_append:
  "split_on c (a @ b)
   = butlast (split_on c a) @ (last (split_on c a) @ hd (split_on c b)) # tl (split_on c b)"
proof (induction a)
  case Nil
  have "split_on c b \<noteq> []" by (rule split_on_not_Nil)
  then show ?case by (cases "split_on c b") auto
next
  case (Cons x a)
  have ne: "split_on c a \<noteq> []" "split_on c (a @ b) \<noteq> []"
    by (rule split_on_not_Nil)+
  show ?case
  proof (cases "x = c")
    case True
    with Cons ne show ?thesis by simp
  next
    case False
    show ?thesis
    proof (cases "butlast (split_on c a)")
      case Nil
      with ne(1) have "split_on c a = [last (split_on c a)]"
        by (metis append_butlast_last_id append_Nil)
      with Cons False Nil show ?thesis
        by (cases "split_on c a") auto
    next
      case (Cons y ys)
      with ne(1) have "hd (split_on c a) = y" "tl (split_on c a) \<noteq> []"
        by (cases "split_on c a"; auto split: if_splits)+
      with Cons.IH Cons False Cons ne show ?thesis
        by (cases "split_on c a") (auto split: if_splits)
    qed
  qed
qed

lemma split_on_append_nth:
  assumes "k < length (split_on c b)"
  shows "split_on c (a @ b) ! (count_list a c + k)
         = (if k = 0 then last (split_on c a) @ hd (split_on c b) else split_on c b ! k)"
proof -
  have len: "length (butlast (split_on c a)) = count_list a c"
    by (simp add: length_split_on)
  have ne: "split_on c b \<noteq> []" by (rule split_on_not_Nil)
  show ?thesis
  proof (cases k)
    case 0
    with len show ?thesis
      by (simp add: split_on_append nth_append)
  next
    case (Suc j)
    with assms ne have "tl (split_on c b) ! j = split_on c b ! k"
      by (cases "split_on c b") auto
    with Suc len show ?thesis
      by (simp add: split_on_append nth_append)
  qed
qed

lemma refresh_head_line_feeds:
  "count_list (refresh_head ident) (CHR 0x0A) = 8 + count_list ident (CHR 0x0A)"
  by (simp add: refresh_head_def runtimePublicPath_def LF_def)

lemma refresh_head_last_line: "last (split_on (CHR 0x0A) (refresh_head ident)) = ''  ''"
proof -
  obtain a where "refresh_head ident = a @ CHR 0x0A # ''  ''"
    by (simp add: refresh_head_def LF_def)
  then show ?thesis
    by (simp add: split_on_separator split_on_not_Nil)
qed

lemma refresh_tail_line_feed: "\<exists>t. refresh_tail = CHR 0x0A # t"
  by (simp add: refresh_tail_def LF_def)

text \<open>
  The lines of the code inside the template: the template puts as many lines before
  it as its text before the code has line feeds, and two spaces before its first
  line.
\<close>

lemma wrapped_lines:
  assumes "k < length (split_on (CHR 0x0A) compiled)"
  shows "split_on (CHR 0x0A) (refresh_head ident @ compiled @ refresh_tail)
           ! (count_list (refresh_head ident) (CHR 0x0A) + k)
         = (if k = 0 then ''  '' else []) @ split_on (CHR 0x0A) compiled ! k"
proof -
  obtain t where t: "refresh_tail = CHR 0x0A # t"
    using refresh_tail_line_feed by auto
  have sp: "split_on (CHR 0x0A) (compiled @ refresh_tail)
            = split_on (CHR 0x0A) compiled @ split_on (CHR 0x0A) t"
    by (simp add: t split_on_separator)
  have ne: "split_on (CHR 0x0A) compiled \<noteq> []" by (rule split_on_not_Nil)
  from assms have k: "k < length (split_on (CHR 0x0A) (compiled @ refresh_tail))"
    by (simp add: sp)
  have hd0: "hd (split_on (CHR 0x0A) (compiled @ refresh_tail))
             = split_on (CHR 0x0A) compiled ! 0"
    using ne by (simp add: sp hd_conv_nth nth_append)
  have nth: "split_on (CHR 0x0A) (compiled @ refresh_tail) ! k
             = split_on (CHR 0x0A) compiled ! k"
    using assms by (simp add: sp nth_append)
  from split_on_append_nth [OF k, of "refresh_head ident"] hd0 nth
  show ?thesis
    by (simp add: refresh_head_last_line)
qed

lemma shifted_groups:
  "split_on CHR '';'' ('';;;;;;;;'' @ m) ! (8 + k) = split_on CHR '';'' m ! k"
  by simp


section \<open>The injection and the map: claim C3\<close>

text \<open>
  Where the code keeps claim C3: when the injection is triggered for a file whose id
  holds no line feed,
  \<^item> the code returned is the compiled code inside the template, and eight line
    feeds stand before the compiled code;
  \<^item> the mappings returned are the parsed mappings after eight semicolons, each of
    which ends an empty group;
  \<^item> so, counting lines by line feeds, line \<open>k\<close> of the compiled code is line
    \<open>8 + k\<close> of the code returned (the first one after two spaces), and the group
    of mappings of line \<open>8 + k\<close> of the code returned is the group of line \<open>k\<close> of
    the compiled code.
\<close>

lemma inject_refresh_offset:
  assumes "\<not> str_includes ident ''node_modules''" and "parser_for ident = Some parser"
    and "root st = Some r"
    and "map_option entry_input
           (map_of (cache st) (fileCachePath (path_relative e r ident) (truthy (ssr_of topts))))
         \<noteq> Some src"
    and "swc_transform e src (swc_options_for ident parser (ssr_of topts)) = Inr result"
    and "Option.bind (out_map result) (parse_map e) = Some sourceMap"
    and "str_includes (out_code result) ''$RefreshReg$''"
    and "CHR 0x0A \<notin> set ident"
  shows "fst (transform e src ident topts st)
           = Inr (Some \<lparr>res_code = refresh_head ident @ out_code result @ refresh_tail,
                          res_map = sourceMap\<lparr>mappings := '';;;;;;;;'' @ mappings sourceMap\<rparr>\<rparr>)
       \<and> count_list (refresh_head ident) (CHR 0x0A) = 8
       \<and> '';;;;;;;;'' = replicate 8 CHR '';''
       \<and> (\<forall>k. k < length (split_on (CHR 0x0A) (out_code result)) \<longrightarrow>
             split_on (CHR 0x0A) (refresh_head ident @ out_code result @ refresh_tail) ! (8 + k)
             = (if k = 0 then ''  '' else []) @ split_on (CHR 0x0A) (out_code result) ! k)
       \<and> (\<forall>k. k < length (split_on CHR '';'' (mappings sourceMap)) \<longrightarrow>
             split_on CHR '';'' ('';;;;;;;;'' @ mappings sourceMap) ! (8 + k)
             = split_on CHR '';'' (mappings sourceMap) ! k)"
proof -
  have t: "fst (transform e src ident topts st)
           = Inr (Some \<lparr>res_code = refresh_head ident @ out_code result @ refresh_tail,
                          res_map = sourceMap\<lparr>mappings := '';;;;;;;;'' @ mappings sourceMap\<rparr>\<rparr>)"
    by (simp add: transform_miss [OF assms(1-4)] Let_def assms(5,6,7) inject_refresh_def)
  have n: "count_list (refresh_head ident) (CHR 0x0A) = 8"
    using assms(8) by (simp add: refresh_head_line_feeds)
  have m: "'';;;;;;;;'' = replicate 8 CHR '';''"
    by (simp add: eval_nat_numeral)
  have l: "\<forall>k. k < length (split_on (CHR 0x0A) (out_code result)) \<longrightarrow>
             split_on (CHR 0x0A) (refresh_head ident @ out_code result @ refresh_tail) ! (8 + k)
             = (if k = 0 then ''  '' else []) @ split_on (CHR 0x0A) (out_code result) ! k"
    using wrapped_lines [of _ "out_code result" ident] by (simp add: n)
  have g: "\<forall>k. k < length (split_on CHR '';'' (mappings sourceMap)) \<longrightarrow>
             split_on CHR '';'' ('';;;;;;;;'' @ mappings sourceMap) ! (8 + k)
             = split_on CHR '';'' (mappings sourceMap) ! k"
    using shifted_groups by simp
  show ?thesis
    by (intro conjI) (rule t n m l g)+
qed


lemma inject_refresh_offset_example:
  "\<not> str_includes ''/p/src/a.tsx'' ''node_modules''
   \<and> parser_for ''/p/src/a.tsx'' = Some (Typescript True)
   \<and> root sample_state = Some ''/p''
   \<and> swc_transform sample_env sample_component
        (swc_options_for ''/p/src/a.tsx'' (Typescript True) (ssr_of None))
       = Inr \<lparr>out_code = sample_component @ LF @ ''_c = A;'' @ LF @ ''var _c;'' @ LF
                            @ ''$RefreshReg$(_c, \"A\");'',
              out_map = Some sample_map_text\<rparr>
   \<and> CHR 0x0A \<notin> set ''/p/src/a.tsx''
   \<and> fst (transform sample_env sample_component ''/p/src/a.tsx'' None sample_state)
       = Inr (Some
           \<lparr>res_code = refresh_head ''/p/src/a.tsx''
              @ (sample_component @ LF @ ''_c = A;'' @ LF @ ''var _c;'' @ LF
                 @ ''$RefreshReg$(_c, \"A\");'')
              @ refresh_tail,
            res_map = sample_map\<lparr>mappings := '';;;;;;;;AAAA;AACA''\<rparr>\<rparr>)
   \<and> split_on (CHR 0x0A)
        (refresh_head ''/p/src/a.tsx''
         @ (sample_component @ LF @ ''_c = A;'' @ LF @ ''var _c;'' @ LF
            @ ''$RefreshReg$(_c, \"A\");'')
         @ refresh_tail) ! 9 = ''_c = A;''
   \<and> split_on CHR '';'' '';;;;;;;;AAAA;AACA'' ! 9 = ''AACA''"
proof -
  let ?code = "sample_component @ LF @ ''_c = A;'' @ LF @ ''var _c;'' @ LF
               @ ''$RefreshReg$(_c, \"A\");''"
  let ?result = "\<lparr>out_code = ?code, out_map = Some sample_map_text\<rparr>"
  have h1: "\<not> str_includes ''/p/src/a.tsx'' ''node_modules''"
    by simp
  have h2: "parser_for ''/p/src/a.tsx'' = Some (Typescript True)"
    by (simp add: parser_for_def endsWith_def)
  have h3: "root sample_state = Some ''/p''"
    by (simp add: sample_state_def)
  have h4: "map_option entry_input
      (map_of (cache sample_state)
         (fileCachePath (path_relative sample_env ''/p'' ''/p/src/a.tsx'') (truthy (ssr_of None))))
      \<noteq> Some sample_component"
    by (simp add: sample_state_def)
  have h5: "swc_transform sample_env sample_component
          (swc_options_for ''/p/src/a.tsx'' (Typescript True) (ssr_of None)) = Inr ?result"
    by (simp add: sample_env_def sample_swc_def swc_options_for_def ssr_of_def truthy_def
        sample_component_def)
  have h6: "Option.bind (out_map ?result) (parse_map sample_env) = Some sample_map"
    by (simp add: sample_env_def)
  have h7: "str_includes (out_code ?result) ''$RefreshReg$''"
    by (simp add: sample_component_def LF_def)
  have h8: "CHR 0x0A \<notin> set ''/p/src/a.tsx''"
    by simp
  note w = inject_refresh_offset [OF h1 h2 h3 h4 h5 h6 h7 h8]
  from w [THEN conjunct1]
  have t: "fst (transform sample_env sample_component ''/p/src/a.tsx'' None sample_state)
       = Inr (Some \<lparr>res_code = refresh_head ''/p/src/a.tsx'' @ ?code @ refresh_tail,
                      res_map = sample_map\<lparr>mappings := '';;;;;;;;AAAA;AACA''\<rparr>\<rparr>)"
    by (simp add: sample_map_def)
  from w [THEN conjunct2, THEN conjunct2, THEN conjunct2, THEN conjunct1, rule_format, of 1]
  have l: "split_on (CHR 0x0A) (refresh_head ''/p/src/a.tsx'' @ ?code @ refresh_tail) ! 9
           = ''_c = A;''"
    by (simp add: sample_component_def LF_def)
  from w [THEN conjunct2, THEN conjunct2, THEN conjunct2, THEN conjunct2, rule_format, of 1]
  have g: "split_on CHR '';'' '';;;;;;;;AAAA;AACA'' ! 9 = ''AACA''"
    by (simp add: sample_map_def)
  show ?thesis
    by (intro conjI) (rule h1 h2 h3 h5 h8 t l g)+
qed


text \<open>
  Claim C3: when the injection is triggered, as many empty groups go before the
  mappings as lines go before the compiled code. The code misses it for an id that
  holds a line feed: line 153 puts the eight semicolons that answer the eight lines
  of the template before the code, but line 159 prints the id on the sixth of these
  lines as it is, with no escape, inside a quoted literal. Here the component of a
  file whose name holds a line feed is compiled: nine line feeds stand before the
  compiled code, eight semicolons before its mappings, so every line of the compiled
  code is read with the group of the line before it.
\<close>

theorem inject_refresh_line_feed_in_id:
  "fst (transform sample_env sample_component (''/p/src/a'' @ LF @ ''b.tsx'') None sample_state)
     = Inr (Some
         \<lparr>res_code = refresh_head (''/p/src/a'' @ LF @ ''b.tsx'')
            @ out_code (projr (sample_swc sample_component
                 (swc_options_for (''/p/src/a'' @ LF @ ''b.tsx'') (Typescript True) None)))
            @ refresh_tail,
          res_map = sample_map\<lparr>mappings := '';;;;;;;;'' @ mappings sample_map\<rparr>\<rparr>)
   \<and> count_list (refresh_head (''/p/src/a'' @ LF @ ''b.tsx'')) (CHR 0x0A) = 9
   \<and> count_list '';;;;;;;;'' CHR '';'' = 8"
  by (simp add: sample_simps refresh_head_line_feeds)

section \<open>Facts about paths and the disk\<close>

lemma cache_dir_shape:
  "join d ''swc-cache'' \<noteq> [] \<and> last (join d ''swc-cache'') \<noteq> CHR ''/''"
  by (simp add: join_def)

lemma metadata_path:
  "join (join d ''swc-cache'') ''_metadata.json'' = join d ''swc-cache'' @ ''/_metadata.json''"
  using cache_dir_shape [of d] by (simp add: join_def)

lemma dirname_child:
  assumes "CHR ''/'' \<notin> set n"
  shows "dirname (p @ ''/'' @ n) = p"
proof -
  have "dropWhile (\<lambda>c. c \<noteq> CHR ''/'') (rev n @ CHR ''/'' # rev p) = CHR ''/'' # rev p"
    using assms by (subst dropWhile_append2) auto
  then show ?thesis
    by (simp add: dirname_def)
qed

lemma dirname_shorter: "p \<noteq> [] \<Longrightarrow> length (dirname p) < length p"
  using length_dropWhile_le [of "\<lambda>c. c \<noteq> CHR ''/''" "rev p"]
  by (cases p) (auto simp: dirname_def)

lemma within_length: "within p q \<Longrightarrow> length p \<le> length q"
  by (auto simp: within_def startsWith_prefix prefix_def)

lemma not_within_dirname: "p \<noteq> [] \<Longrightarrow> \<not> within p (dirname p)"
  using dirname_shorter [of p] within_length [of p "dirname p"] by auto

lemma within_self: "within p p"
  by (simp add: within_def)

lemma within_child: "within p (p @ ''/'' @ n)"
  by (simp add: within_def startsWith_prefix)

lemma is_file_map_of: "is_file st p = (map_of (files st) p \<noteq> None)"
  by (simp add: is_file_def map_of_eq_None_iff)

lemma map_of_filter_within:
  "map_of (filter (\<lambda>(q, c). \<not> within p q) fs) q = (if within p q then None else map_of fs q)"
  by (induction fs) auto

text \<open>
  What lines 86 and 87 leave: nothing at the cache directory or below it but the
  directory itself, everything else as it was.
\<close>

lemma mkdirSync_after_rmSync:
  assumes "p \<noteq> []" and "parent_exists st p"
  shows "mkdirSync p (rmSync p st)
         = Inr (st\<lparr>files := filter (\<lambda>(q, c). \<not> within p q) (files st),
                   dirs := filter (\<lambda>q. \<not> within p q) (dirs st) @ [p]\<rparr>)"
proof -
  have gone: "\<not> existsSync (rmSync p st) p"
    by (auto simp: existsSync_def is_file_def rmSync_def within_self)
  have parent: "parent_exists (rmSync p st) p"
    using assms not_within_dirname [OF assms(1)]
    by (auto simp: parent_exists_def rmSync_def)
  from gone parent show ?thesis
    by (simp add: mkdirSync_def rmSync_def)
qed


text \<open>
  The path of lines 86, 87, 92 and 93, taken when the version read from the metadata
  is not the current one: the state it leaves.
\<close>

lemma configResolved_reset:
  assumes "cache st = []"
    and "map_of (files st) (join (join (cfg_cacheDir config) ''swc-cache'') ''_metadata.json'')
         = Some content"
    and "JSON_parse e content = Some j"
    and "get_version j = Inr v"
    and "v \<noteq> Some (JString (cache_version e))"
    and "parent_exists st (join (cfg_cacheDir config) ''swc-cache'')"
  shows "configResolved e config st =
     (None,
      st\<lparr>root := Some (cfg_root config),
         cachePath := Some (join (cfg_cacheDir config) ''swc-cache''),
         files := AList.update (join (cfg_cacheDir config) ''swc-cache'' @ ''/_metadata.json'')
                    (stringify_metadata e (cache_version e))
                    (filter (\<lambda>(q, c). \<not> within (join (cfg_cacheDir config) ''swc-cache'') q)
                       (files st)),
         dirs := filter (\<lambda>q. \<not> within (join (cfg_cacheDir config) ''swc-cache'') q) (dirs st)
                 @ [join (cfg_cacheDir config) ''swc-cache'']\<rparr>)"
proof -
  let ?cp = "join (cfg_cacheDir config) ''swc-cache''"
  let ?mp = "?cp @ ''/_metadata.json''"
  let ?st1 = "st\<lparr>root := Some (cfg_root config), cachePath := Some ?cp\<rparr>"
  have mp: "join ?cp ''_metadata.json'' = ?mp"
    by (rule metadata_path)
  have cp: "?cp \<noteq> []"
    using cache_dir_shape by simp
  have ex: "existsSync ?st1 ?mp"
    using assms(2) by (simp add: existsSync_def is_file_map_of mp)
  have rd: "readFileSync ?st1 ?mp = Inr content"
    using assms(2) by (simp add: readFileSync_def mp)
  have pe: "parent_exists ?st1 ?cp"
    using assms(6) by (simp add: parent_exists_def)
  let ?st2 = "st\<lparr>root := Some (cfg_root config), cachePath := Some ?cp,
                   files := filter (\<lambda>(q, c). \<not> within ?cp q) (files st),
                   dirs := filter (\<lambda>q. \<not> within ?cp q) (dirs st) @ [?cp]\<rparr>"
  have mk: "mkdirSync ?cp (rmSync ?cp ?st1) = Inr ?st2"
    using mkdirSync_after_rmSync [OF cp pe] by simp
  have nd: "?mp \<notin> set (dirs ?st2)"
    using within_child [of ?cp "''_metadata.json''"] by auto
  have dn: "dirname ?mp = ?cp"
    using dirname_child [of "''_metadata.json''" ?cp] by simp
  have wr: "write_metadata e ?mp ?st2
            = (None,
               st\<lparr>root := Some (cfg_root config), cachePath := Some ?cp,
                  files := AList.update ?mp (stringify_metadata e (cache_version e))
                             (filter (\<lambda>(q, c). \<not> within ?cp q) (files st)),
                  dirs := filter (\<lambda>q. \<not> within ?cp q) (dirs st) @ [?cp]\<rparr>)"
    using nd by (simp add: write_metadata_def writeFileSync_def parent_exists_def dn)
  show ?thesis
    using assms(1,3,4,5)
    by (simp add: configResolved_def Let_def mp ex rd mk wr)
qed

section \<open>A cache of another version: claim C8\<close>

text \<open>
  Claim C8. A process whose cache is empty resolves its configuration over a disk
  whose metadata record carries the version \<open>v1\<close>, which is not the current one;
  the directory that holds the cache directory exists. Then the hook does not throw,
  and afterwards:
  \<^item> the cache is empty, so that a lookup of any key finds nothing;
  \<^item> the cache directory exists, and nothing is in it or below it but the metadata
    file: every file and directory that was there is gone;
  \<^item> the metadata file holds the record of the current version;
  \<^item> the files and directories outside the cache directory are as they were.
\<close>

theorem configResolved_version_mismatch:
  assumes "cache st = []"
    and "map_of (files st) (join (join (cfg_cacheDir config) ''swc-cache'') ''_metadata.json'')
         = Some content"
    and "JSON_parse e content = Some (JObject kvs)"
    and "map_of kvs ''version'' = Some (JString v1)"
    and "v1 \<noteq> cache_version e"
    and "parent_exists st (join (cfg_cacheDir config) ''swc-cache'')"
  shows "fst (configResolved e config st) = None
       \<and> cache (snd (configResolved e config st)) = []
       \<and> (\<forall>k. map_of (cache (snd (configResolved e config st))) k = None)
       \<and> join (cfg_cacheDir config) ''swc-cache'' \<in> set (dirs (snd (configResolved e config st)))
       \<and> (\<forall>q. within (join (cfg_cacheDir config) ''swc-cache'') q \<longrightarrow>
             is_file (snd (configResolved e config st)) q
             = (q = join (join (cfg_cacheDir config) ''swc-cache'') ''_metadata.json''))
       \<and> (\<forall>q. within (join (cfg_cacheDir config) ''swc-cache'') q \<longrightarrow>
             (q \<in> set (dirs (snd (configResolved e config st))))
             = (q = join (cfg_cacheDir config) ''swc-cache''))
       \<and> map_of (files (snd (configResolved e config st)))
            (join (join (cfg_cacheDir config) ''swc-cache'') ''_metadata.json'')
          = Some (stringify_metadata e (cache_version e))
       \<and> (\<forall>q. \<not> within (join (cfg_cacheDir config) ''swc-cache'') q \<longrightarrow>
             map_of (files (snd (configResolved e config st))) q = map_of (files st) q
             \<and> (q \<in> set (dirs (snd (configResolved e config st)))) = (q \<in> set (dirs st)))"
proof -
  let ?cp = "join (cfg_cacheDir config) ''swc-cache''"
  have gv: "get_version (JObject kvs) = Inr (Some (JString v1))"
    using assms(4) by simp
  have ne: "Some (JString v1) \<noteq> Some (JString (cache_version e))"
    using assms(5) by simp
  note r = configResolved_reset [OF assms(1,2,3) gv ne assms(6)]
  have mp: "join ?cp ''_metadata.json'' = ?cp @ ''/_metadata.json''"
    by (rule metadata_path)
  have w: "within ?cp (?cp @ ''/_metadata.json'')"
    using within_child [of ?cp "''_metadata.json''"] by simp
  have nw: "\<And>q. \<not> within ?cp q \<Longrightarrow> q \<noteq> ?cp @ ''/_metadata.json'' \<and> q \<noteq> ?cp"
    using w within_self [of ?cp] by auto
  show ?thesis
    using assms(1) nw
    by (auto simp: r mp is_file_map_of update_conv' map_of_filter_within within_self)
qed

theorem configResolved_version_mismatch_witness:
  "cache old_state = []
   \<and> map_of (files old_state)
        (join (join (cfg_cacheDir sample_config) ''swc-cache'') ''_metadata.json'')
       = Some ''{\"version\":\"1-1.3.41\"}''
   \<and> JSON_parse sample_env ''{\"version\":\"1-1.3.41\"}''
       = Some (JObject [(''version'', JString ''1-1.3.41'')])
   \<and> ''1-1.3.41'' \<noteq> cache_version sample_env
   \<and> parent_exists old_state (join (cfg_cacheDir sample_config) ''swc-cache'')
   \<and> is_file old_state ''/p/.vite/swc-cache/src|a.tsx.json''
   \<and> fst (configResolved sample_env sample_config old_state) = None
   \<and> \<not> is_file (snd (configResolved sample_env sample_config old_state))
          ''/p/.vite/swc-cache/src|a.tsx.json''
   \<and> map_of (files (snd (configResolved sample_env sample_config old_state)))
        ''/p/.vite/swc-cache/_metadata.json''
       = Some ''{\"version\":\"1-1.3.42\"}''"
proof -
  have h1: "cache old_state = []"
    by (simp add: old_state_def)
  have h2: "map_of (files old_state)
        (join (join (cfg_cacheDir sample_config) ''swc-cache'') ''_metadata.json'')
       = Some ''{\"version\":\"1-1.3.41\"}''"
    by (simp add: old_state_def sample_config_def join_def)
  have h3: "JSON_parse sample_env ''{\"version\":\"1-1.3.41\"}''
       = Some (JObject [(''version'', JString ''1-1.3.41'')])"
    by (simp add: sample_env_def sample_JSON_parse_def)
  have h4: "map_of [(''version'', JString ''1-1.3.41'')] ''version'' = Some (JString ''1-1.3.41'')"
    by simp
  have h5: "''1-1.3.41'' \<noteq> cache_version sample_env"
    by (simp add: cache_version_def sample_env_def PLUGIN_CACHE_VERSION_def)
  have h6: "parent_exists old_state (join (cfg_cacheDir sample_config) ''swc-cache'')"
    by (simp add: parent_exists_def old_state_def sample_config_def join_def dirname_def)
  have f: "is_file old_state ''/p/.vite/swc-cache/src|a.tsx.json''"
    by (simp add: is_file_def old_state_def)
  have cp: "join (cfg_cacheDir sample_config) ''swc-cache'' = ''/p/.vite/swc-cache''"
    by (simp add: sample_config_def join_def)
  have mp: "join ''/p/.vite/swc-cache'' ''_metadata.json'' = ''/p/.vite/swc-cache/_metadata.json''"
    by (simp add: join_def)
  have v2: "stringify_metadata sample_env (cache_version sample_env) = ''{\"version\":\"1-1.3.42\"}''"
    by (simp add: sample_env_def cache_version_def PLUGIN_CACHE_VERSION_def json_text_def)
  have wi: "within ''/p/.vite/swc-cache'' ''/p/.vite/swc-cache/src|a.tsx.json''"
    by (simp add: within_def)
  note w = configResolved_version_mismatch [OF h1 h2 h3 h4 h5 h6, unfolded cp mp v2]
  from w have a: "fst (configResolved sample_env sample_config old_state) = None"
    by (rule conjunct1)
  from w have "\<forall>q. within ''/p/.vite/swc-cache'' q \<longrightarrow>
             is_file (snd (configResolved sample_env sample_config old_state)) q
             = (q = ''/p/.vite/swc-cache/_metadata.json'')"
    by (elim conjE)
  from this [rule_format, OF wi]
  have b: "\<not> is_file (snd (configResolved sample_env sample_config old_state))
          ''/p/.vite/swc-cache/src|a.tsx.json''"
    by simp
  from w have c: "map_of (files (snd (configResolved sample_env sample_config old_state)))
        ''/p/.vite/swc-cache/_metadata.json''
       = Some ''{\"version\":\"1-1.3.42\"}''"
    by (elim conjE)
  show ?thesis
    by (intro conjI) (rule h1 h2 h3 h5 h6 f a b c)+
qed

section \<open>A metadata file that holds no record: claim C10\<close>

text \<open>
  Claim C10, as stated: when the metadata file holds no valid JSON, or a value that
  is no record, the hook throws and wipes nothing. For a value that is no record and
  is not \<^verbatim>\<open>null\<close> it is not so: \<^verbatim>\<open>previousCache.version\<close> is then
  \<^verbatim>\<open>undefined\<close>, which is not the current version, and the hook goes on as for
  another version. Here the metadata file holds the number \<open>5\<close>: the hook does not
  throw, the entry file is gone and the metadata file holds the current version.
\<close>

theorem configResolved_number_metadata:
  "fst (configResolved sample_env sample_config
          (old_state\<lparr>files := [(''/p/.vite/swc-cache/_metadata.json'', ''5''),
                                (''/p/.vite/swc-cache/src|a.tsx.json'', sample_entry_text)]\<rparr>))
     = None
   \<and> files (snd (configResolved sample_env sample_config
          (old_state\<lparr>files := [(''/p/.vite/swc-cache/_metadata.json'', ''5''),
                                (''/p/.vite/swc-cache/src|a.tsx.json'', sample_entry_text)]\<rparr>)))
     = [(''/p/.vite/swc-cache/_metadata.json'', ''{\"version\":\"1-1.3.42\"}'')]"
  by (simp add: configResolved_def old_state_def sample_config_def sample_env_def
      sample_JSON_parse_def join_def existsSync_def is_file_def readFileSync_def
      cache_version_def PLUGIN_CACHE_VERSION_def rmSync_def mkdirSync_def within_def
      parent_exists_def dirname_def write_metadata_def writeFileSync_def json_text_def
      Let_def)

text \<open>
  Claim C10, amended. A process whose cache is empty resolves its configuration over
  a disk whose metadata file exists.
  \<^item> When the content of the file is no valid JSON, the hook throws a
    \<^verbatim>\<open>SyntaxError\<close>; when it parses to \<^verbatim>\<open>null\<close>, the hook throws a
    \<^verbatim>\<open>TypeError\<close>. In both cases \<open>root\<close> and \<open>cachePath\<close> have been assigned and
    nothing else has changed: the cache directory is not wiped, no entry is restored,
    no metadata record is written.
  \<^item> When it parses to a boolean, a number, a text or an array, the hook does not
    throw for that: it goes on as for a record of another version (lines 86, 87,
    92 and 93).
\<close>

theorem configResolved_bad_metadata:
  assumes "cache st = []"
    and "map_of (files st) (join (join (cfg_cacheDir config) ''swc-cache'') ''_metadata.json'')
         = Some content"
  shows "(JSON_parse e content = None \<longrightarrow>
            configResolved e config st
            = (Some SyntaxError,
               st\<lparr>root := Some (cfg_root config),
                  cachePath := Some (join (cfg_cacheDir config) ''swc-cache'')\<rparr>))
       \<and> (JSON_parse e content = Some JNull \<longrightarrow>
            configResolved e config st
            = (Some TypeError,
               st\<lparr>root := Some (cfg_root config),
                  cachePath := Some (join (cfg_cacheDir config) ''swc-cache'')\<rparr>))
       \<and> (\<forall>j. JSON_parse e content = Some j \<and> j \<noteq> JNull \<and> (\<forall>kvs. j \<noteq> JObject kvs) \<longrightarrow>
            configResolved e config st
            = (let cp = join (cfg_cacheDir config) ''swc-cache'';
                   st1 = st\<lparr>root := Some (cfg_root config), cachePath := Some cp\<rparr>
               in case mkdirSync cp (rmSync cp st1) of
                    Inl err \<Rightarrow> (Some (FsError err), rmSync cp st1)
                  | Inr st2 \<Rightarrow> write_metadata e (join cp ''_metadata.json'') st2))"
proof -
  let ?cp = "join (cfg_cacheDir config) ''swc-cache''"
  let ?mp = "join ?cp ''_metadata.json''"
  let ?st1 = "st\<lparr>root := Some (cfg_root config), cachePath := Some ?cp\<rparr>"
  have ex: "existsSync ?st1 ?mp"
    using assms(2) by (simp add: existsSync_def is_file_map_of)
  have rd: "readFileSync ?st1 ?mp = Inr content"
    using assms(2) by (simp add: readFileSync_def)
  have other: "get_version j = Inr None" if "j \<noteq> JNull" and "\<forall>kvs. j \<noteq> JObject kvs" for j
    using that by (cases j) auto
  show ?thesis
    using assms(1) other
    by (auto simp: configResolved_def Let_def ex rd)
qed

theorem configResolved_bad_metadata_witness:
  "cache old_state = []
   \<and> JSON_parse sample_env ''{'' = None
   \<and> configResolved sample_env sample_config
        (old_state\<lparr>files := [(''/p/.vite/swc-cache/_metadata.json'', ''{''),
                              (''/p/.vite/swc-cache/src|a.tsx.json'', sample_entry_text)]\<rparr>)
       = (Some SyntaxError,
          old_state\<lparr>files := [(''/p/.vite/swc-cache/_metadata.json'', ''{''),
                                (''/p/.vite/swc-cache/src|a.tsx.json'', sample_entry_text)],
                     root := Some ''/p'', cachePath := Some ''/p/.vite/swc-cache''\<rparr>)
   \<and> JSON_parse sample_env ''null'' = Some JNull
   \<and> configResolved sample_env sample_config
        (old_state\<lparr>files := [(''/p/.vite/swc-cache/_metadata.json'', ''null''),
                              (''/p/.vite/swc-cache/src|a.tsx.json'', sample_entry_text)]\<rparr>)
       = (Some TypeError,
          old_state\<lparr>files := [(''/p/.vite/swc-cache/_metadata.json'', ''null''),
                                (''/p/.vite/swc-cache/src|a.tsx.json'', sample_entry_text)],
                     root := Some ''/p'', cachePath := Some ''/p/.vite/swc-cache''\<rparr>)"
  using configResolved_bad_metadata
    [of "old_state\<lparr>files := [(''/p/.vite/swc-cache/_metadata.json'', ''{''),
                              (''/p/.vite/swc-cache/src|a.tsx.json'', sample_entry_text)]\<rparr>"
      sample_config "''{''" sample_env]
    configResolved_bad_metadata
    [of "old_state\<lparr>files := [(''/p/.vite/swc-cache/_metadata.json'', ''null''),
                              (''/p/.vite/swc-cache/src|a.tsx.json'', sample_entry_text)]\<rparr>"
      sample_config "''null''" sample_env]
  by (simp add: old_state_def sample_config_def sample_env_def sample_JSON_parse_def join_def)


end
